theory Spec2Isabelle
  imports Main "HOL-Library.Sublist" "HOL-Library.AList"
begin

section \<open>Dynamically typed documents\<close>

text \<open>
  A decoded template is a Go \<^verbatim>\<open>map[string]interface{}\<close>. The values stored in an
  \<^verbatim>\<open>interface{}\<close> after JSON or YAML decoding are \<^verbatim>\<open>nil\<close>, booleans, numbers,
  strings, slices and string-keyed maps. The code never inspects a number, so the
  number payload is a type parameter (\<^verbatim>\<open>float64\<close> for JSON; \<^verbatim>\<open>int\<close> or
  \<^verbatim>\<open>float64\<close> for YAML). A YAML decoder can also store values of other dynamic
  types (a mapping with keys that are not strings, a timestamp); they are not string-keyed
  maps, the code treats them as it treats any value that is not one, and they have no
  constructor here.

  A Go map is an association list here: \<open>map_of\<close> is the lookup, and the order of the
  list is the order in which one \<^verbatim>\<open>range\<close> loop happens to visit the entries. Go
  leaves that order unspecified, so the theorems below are stated for every list.
\<close>

datatype 'n iface =
    INil
  | IBool bool
  | INumber 'n
  | IString string
  | ISlice "'n iface list"
  | IMap "(string \<times> 'n iface) list"

type_synonym 'n gomap = "(string \<times> 'n iface) list"

section \<open>Library functions of package strings\<close>

text \<open>
  \<^verbatim>\<open>strings.Split(s, sep)\<close> with a one-byte separator: the pieces of \<open>s\<close> between the
  occurrences of the separator, always at least one piece
  (\<^verbatim>\<open>strings.Split("", ".") = [""]\<close>).
\<close>

primrec strings_Split :: "char \<Rightarrow> string \<Rightarrow> string list" where
  "strings_Split sep [] = [[]]"
| "strings_Split sep (c # cs) =
     (if c = sep then [] # strings_Split sep cs
      else (case strings_Split sep cs of
              [] \<Rightarrow> [[c]]
            | p # ps \<Rightarrow> (c # p) # ps))"

text \<open>\<^verbatim>\<open>strings.Join(parts, sep)\<close>, the inverse used to write a dotted path.\<close>

fun strings_Join :: "char \<Rightarrow> string list \<Rightarrow> string" where
  "strings_Join sep [] = []"
| "strings_Join sep [p] = p"
| "strings_Join sep (p # q # ps) = p @ sep # strings_Join sep (q # ps)"

definition strings_HasPrefix :: "string \<Rightarrow> string \<Rightarrow> bool" where
  "strings_HasPrefix s p = prefix p s"

definition strings_HasSuffix :: "string \<Rightarrow> string \<Rightarrow> bool" where
  "strings_HasSuffix s p = suffix p s"

definition strings_Contains :: "string \<Rightarrow> string \<Rightarrow> bool" where
  "strings_Contains s sub = sublist sub s"

section \<open>The nested property resolver\<close>

text \<open>
  \<^verbatim>\<open>getNestedProperty\<close> (cmd/search.go, and the identical copy in the list command):
  \<^verbatim>\<open>
  parts := strings.Split(path, ".")
  var current interface{} = properties
  for _, part := range parts {
      currentMap, ok := current.(map[string]interface{})
      if !ok { return nil }
      val, exists := currentMap[part]
      if !exists { return nil }
      current = val
  }
  return current
  \<close>
  The loop is a recursion on the remaining parts with \<open>current\<close> as the state; the two
  early returns give \<open>INil\<close>, Go's \<^verbatim>\<open>nil\<close>.
\<close>

fun getNestedProperty_loop :: "string list \<Rightarrow> 'n iface \<Rightarrow> 'n iface" where
  "getNestedProperty_loop [] current = current"
| "getNestedProperty_loop (part # parts) current =
     (case current of
        IMap currentMap \<Rightarrow>
          (case map_of currentMap part of
             None \<Rightarrow> INil
           | Some val \<Rightarrow> getNestedProperty_loop parts val)
      | _ \<Rightarrow> INil)"

definition getNestedProperty :: "'n gomap \<Rightarrow> string \<Rightarrow> 'n iface" where
  "getNestedProperty properties path =
     getNestedProperty_loop (strings_Split (CHR ''.'') path) (IMap properties)"

text \<open>
  The specification's words for the resolver: walking the segments from the left, every
  value met must be a mapping that has the next segment as a key; \<open>descends v segs leaf\<close>
  says that such a walk from \<open>v\<close> along \<open>segs\<close> exists and ends in \<open>leaf\<close>.
\<close>

inductive descends :: "'n iface \<Rightarrow> string list \<Rightarrow> 'n iface \<Rightarrow> bool" where
  here: "descends v [] v"
| step: "map_of m seg = Some v \<Longrightarrow> descends v segs leaf \<Longrightarrow> descends (IMap m) (seg # segs) leaf"

code_pred descends .

inductive_cases descends_ConsE: "descends v (seg # segs) leaf"

section \<open>Matching the properties of one resource\<close>

text \<open>
  \<^verbatim>\<open>checkProperties\<close> (cmd/search.go lines 206-226; the list command has the same text):
  \<^verbatim>\<open>
  matchedProps := make(map[string]interface{})
  for key, expectedValue := range filters {
      value := getNestedProperty(properties, key)
      if value == nil { return false, nil }
      valueStr := fmt.Sprintf("%v", value)
      if valueStr != expectedValue { return false, nil }
      matchedProps[key] = value
  }
  return true, matchedProps
  \<close>
  The formatter \<^verbatim>\<open>fmt.Sprintf("%v", _)\<close> belongs to Go's library and is a parameter
  \<open>fmtv\<close>. A map assignment \<^verbatim>\<open>m[k] = v\<close> is \<open>AList.update k v m\<close>; the \<^verbatim>\<open>nil\<close> map
  returned with \<^verbatim>\<open>false\<close> is the empty list.
\<close>

fun checkProperties_loop ::
  "('n iface \<Rightarrow> string) \<Rightarrow> 'n gomap \<Rightarrow> (string \<times> string) list \<Rightarrow> 'n gomap \<Rightarrow> bool \<times> 'n gomap"
where
  "checkProperties_loop fmtv properties [] matchedProps = (True, matchedProps)"
| "checkProperties_loop fmtv properties ((key, expectedValue) # filters) matchedProps =
     (let val = getNestedProperty properties key in
      if val = INil then (False, [])
      else if fmtv val \<noteq> expectedValue then (False, [])
      else checkProperties_loop fmtv properties filters (AList.update key val matchedProps))"

definition checkProperties ::
  "('n iface \<Rightarrow> string) \<Rightarrow> 'n gomap \<Rightarrow> (string \<times> string) list \<Rightarrow> bool \<times> 'n gomap"
where
  "checkProperties fmtv properties filters = checkProperties_loop fmtv properties filters []"

record 'n resourceMatch =
  rm_logicalID :: string
  rm_resourceType :: string
  rm_matchedProperties :: "'n gomap"

record 'n stackMatch =
  sm_stackName :: string
  sm_resources :: "'n resourceMatch list"

section \<open>The matcher of the search command\<close>

text \<open>
  The body of the \<^verbatim>\<open>range resources\<close> loop of \<^verbatim>\<open>searchStackTemplate\<close> in
  cmd/search.go (lines 166-201): every \<^verbatim>\<open>continue\<close> is \<open>None\<close>, every
  \<^verbatim>\<open>append\<close> is \<open>Some\<close> of the appended match. The match appended without property
  filters leaves \<^verbatim>\<open>matchedProperties\<close> unset, a \<^verbatim>\<open>nil\<close> map, which has no entries.
\<close>

definition Search_matchResource ::
  "('n iface \<Rightarrow> string) \<Rightarrow> string \<Rightarrow> (string \<times> string) list \<Rightarrow> string \<times> 'n iface
   \<Rightarrow> 'n resourceMatch option"
where
  "Search_matchResource fmtv resourceType propertyFilters entry =
     (case entry of (logicalID, resourceData) \<Rightarrow>
       (case resourceData of
          IMap resourceMap \<Rightarrow>
            (case map_of resourceMap ''Type'' of
               Some (IString resType) \<Rightarrow>
                 if resType \<noteq> resourceType then None
                 else if length propertyFilters > 0 then
                   (case map_of resourceMap ''Properties'' of
                      Some (IMap properties) \<Rightarrow>
                        (case checkProperties fmtv properties propertyFilters of
                           (matched, matchedProps) \<Rightarrow>
                             if \<not> matched then None
                             else Some \<lparr>rm_logicalID = logicalID, rm_resourceType = resType,
                                        rm_matchedProperties = matchedProps\<rparr>)
                    | _ \<Rightarrow> None)
                 else Some \<lparr>rm_logicalID = logicalID, rm_resourceType = resType,
                            rm_matchedProperties = []\<rparr>
             | _ \<Rightarrow> None)
        | _ \<Rightarrow> None))"

fun Search_matchLoop ::
  "('n iface \<Rightarrow> string) \<Rightarrow> string \<Rightarrow> (string \<times> string) list \<Rightarrow> 'n gomap
   \<Rightarrow> 'n resourceMatch list \<Rightarrow> 'n resourceMatch list"
where
  "Search_matchLoop fmtv resourceType propertyFilters [] matches = matches"
| "Search_matchLoop fmtv resourceType propertyFilters (entry # rest) matches =
     (case Search_matchResource fmtv resourceType propertyFilters entry of
        None \<Rightarrow> Search_matchLoop fmtv resourceType propertyFilters rest matches
      | Some m \<Rightarrow> Search_matchLoop fmtv resourceType propertyFilters rest (matches @ [m]))"

text \<open>
  Lines 159-203 of cmd/search.go: a template without a mapping under \<^verbatim>\<open>Resources\<close>
  yields no matches and no error.
\<close>

definition Search_searchResources ::
  "('n iface \<Rightarrow> string) \<Rightarrow> 'n gomap \<Rightarrow> string \<Rightarrow> (string \<times> string) list
   \<Rightarrow> 'n resourceMatch list"
where
  "Search_searchResources fmtv template resourceType propertyFilters =
     (case map_of template ''Resources'' of
        Some (IMap resources) \<Rightarrow> Search_matchLoop fmtv resourceType propertyFilters resources []
      | _ \<Rightarrow> [])"

section \<open>The matcher of the list command\<close>

text \<open>
  The second \<^verbatim>\<open>searchStackTemplate\<close> (the list command, lines 443-488 of the unnamed
  source) takes a type filter \<^verbatim>\<open>resType\<close> and a name filter \<^verbatim>\<open>resName\<close>, each
  applied only when it is not the empty string.
\<close>

definition List_matchResource ::
  "('n iface \<Rightarrow> string) \<Rightarrow> string \<Rightarrow> string \<Rightarrow> (string \<times> string) list \<Rightarrow> string \<times> 'n iface
   \<Rightarrow> 'n resourceMatch option"
where
  "List_matchResource fmtv resType resName propertyFilters entry =
     (case entry of (logicalID, resourceData) \<Rightarrow>
       (case resourceData of
          IMap resourceMap \<Rightarrow>
            (case map_of resourceMap ''Type'' of
               Some (IString currentType) \<Rightarrow>
                 if resType \<noteq> [] \<and> currentType \<noteq> resType then None
                 else if resName \<noteq> [] \<and> \<not> strings_Contains logicalID resName then None
                 else if length propertyFilters > 0 then
                   (case map_of resourceMap ''Properties'' of
                      Some (IMap properties) \<Rightarrow>
                        (case checkProperties fmtv properties propertyFilters of
                           (matched, matchedProps) \<Rightarrow>
                             if \<not> matched then None
                             else Some \<lparr>rm_logicalID = logicalID, rm_resourceType = currentType,
                                        rm_matchedProperties = matchedProps\<rparr>)
                    | _ \<Rightarrow> None)
                 else Some \<lparr>rm_logicalID = logicalID, rm_resourceType = currentType,
                            rm_matchedProperties = []\<rparr>
             | _ \<Rightarrow> None)
        | _ \<Rightarrow> None))"

fun List_matchLoop ::
  "('n iface \<Rightarrow> string) \<Rightarrow> string \<Rightarrow> string \<Rightarrow> (string \<times> string) list \<Rightarrow> 'n gomap
   \<Rightarrow> 'n resourceMatch list \<Rightarrow> 'n resourceMatch list"
where
  "List_matchLoop fmtv resType resName propertyFilters [] matches = matches"
| "List_matchLoop fmtv resType resName propertyFilters (entry # rest) matches =
     (case List_matchResource fmtv resType resName propertyFilters entry of
        None \<Rightarrow> List_matchLoop fmtv resType resName propertyFilters rest matches
      | Some m \<Rightarrow> List_matchLoop fmtv resType resName propertyFilters rest (matches @ [m]))"

definition List_searchResources ::
  "('n iface \<Rightarrow> string) \<Rightarrow> 'n gomap \<Rightarrow> string \<Rightarrow> string \<Rightarrow> (string \<times> string) list
   \<Rightarrow> 'n resourceMatch list"
where
  "List_searchResources fmtv template resType resName propertyFilters =
     (case map_of template ''Resources'' of
        Some (IMap resources) \<Rightarrow>
          List_matchLoop fmtv resType resName propertyFilters resources []
      | _ \<Rightarrow> [])"

section \<open>Vocabulary of the statements\<close>

text \<open>
  A property filter \<open>(path, expected)\<close> holds on a properties mapping when the resolver
  finds a value that is not \<^verbatim>\<open>nil\<close> and whose formatted form is the expected string.
\<close>

definition propertyHolds :: "('n iface \<Rightarrow> string) \<Rightarrow> 'n gomap \<Rightarrow> string \<times> string \<Rightarrow> bool" where
  "propertyHolds fmtv properties f =
     (getNestedProperty properties (fst f) \<noteq> INil \<and>
      fmtv (getNestedProperty properties (fst f)) = snd f)"

text \<open>The map that the loop of \<^verbatim>\<open>checkProperties\<close> has built when no filter failed.\<close>

fun recordAll :: "'n gomap \<Rightarrow> (string \<times> string) list \<Rightarrow> 'n gomap \<Rightarrow> 'n gomap" where
  "recordAll properties [] acc = acc"
| "recordAll properties (f # fs) acc =
     recordAll properties fs (AList.update (fst f) (getNestedProperty properties (fst f)) acc)"

text \<open>
  A formatter for the examples: Go's \<^verbatim>\<open>%v\<close> on strings, booleans and \<^verbatim>\<open>nil\<close>. The
  examples format no other value.
\<close>

definition sprint_scalar :: "int iface \<Rightarrow> string" where
  "sprint_scalar v =
     (case v of
        IString s \<Rightarrow> s
      | IBool b \<Rightarrow> (if b then ''true'' else ''false'')
      | INil \<Rightarrow> ''<nil>''
      | _ \<Rightarrow> [])"

text \<open>
  What a Resource Match says, with its matched-properties map read as a map: the order in
  which a Go map was filled is not observable.
\<close>

definition matchView :: "'n resourceMatch \<Rightarrow> string \<times> string \<times> (string \<rightharpoonup> 'n iface)" where
  "matchView m = (rm_logicalID m, rm_resourceType m, map_of (rm_matchedProperties m))"

section \<open>Fetching and parsing a template\<close>

datatype error = GetTemplateError string | EmptyTemplate | ParseError string

record stackSummary =
  StackName :: "string option"
  StackStatus :: string

text \<open>
  What the commands call outside the sources at hand, as a record of functions: the
  service call \<^verbatim>\<open>client.GetTemplate\<close> (an error, or an output whose \<^verbatim>\<open>TemplateBody\<close>
  is an optional string), the decoders \<^verbatim>\<open>json.Unmarshal\<close> and \<^verbatim>\<open>yaml.Unmarshal\<close> into
  a fresh \<^verbatim>\<open>map[string]interface{}\<close>, the formatter \<^verbatim>\<open>fmt.Sprintf("%v", _)\<close>, the
  construction of the client by \<^verbatim>\<open>mustClient\<close> (\<open>Some\<close> message when it fails), and the
  listing of stacks, \<^verbatim>\<open>listStacks\<close> applied to the result of \<^verbatim>\<open>buildStatusFilters\<close> for
  the four status flags and to the name and description filters.
\<close>

record 'n services =
  GetTemplate :: "string \<Rightarrow> string + string option"
  json_Unmarshal :: "string \<Rightarrow> string + 'n gomap"
  yaml_Unmarshal :: "string \<Rightarrow> string + 'n gomap"
  Sprintf_v :: "'n iface \<Rightarrow> string"
  mustClient :: "string option"
  listStacks :: "bool \<times> bool \<times> bool \<times> bool \<Rightarrow> string \<Rightarrow> string \<Rightarrow> string
                 \<Rightarrow> string + stackSummary list"

text \<open>
  Modelled from the spec: the helper \<^verbatim>\<open>getValue\<close> is not among the sources. It reads an
  optional string, an absent one as the empty string; the spec treats a fetch that
  succeeds with an empty body as a parse failure.
\<close>

definition getValue :: "string option \<Rightarrow> string" where
  "getValue p = (case p of None \<Rightarrow> [] | Some s \<Rightarrow> s)"

text \<open>
  Lines 145-157 of cmd/search.go (the list command has the same text):
  \<^verbatim>\<open>
  if body == "" { return nil, fmt.Errorf("empty template") }
  var template map[string]interface{}
  if err := json.Unmarshal([]byte(body), &template); err != nil {
      if err := yaml.Unmarshal([]byte(body), &template); err != nil {
          return nil, fmt.Errorf("failed to parse template: %v", err)
      }
  }
  \<close>
  A decoder that fails into a \<^verbatim>\<open>map[string]interface{}\<close> has stored nothing in it
  (JSON is validated before it is decoded, and only the top-level value can have the wrong
  type), so the YAML decoder starts from the \<^verbatim>\<open>nil\<close> map.
\<close>

definition parseTemplate ::
  "(string \<Rightarrow> string + 'n gomap) \<Rightarrow> (string \<Rightarrow> string + 'n gomap) \<Rightarrow> string \<Rightarrow> error + 'n gomap"
where
  "parseTemplate json yaml body =
     (if body = [] then Inl EmptyTemplate
      else (case json body of
              Inr template \<Rightarrow> Inr template
            | Inl err \<Rightarrow>
                (case yaml body of
                   Inr template \<Rightarrow> Inr template
                 | Inl err' \<Rightarrow> Inl (ParseError err'))))"

definition Search_searchStackTemplate ::
  "'n services \<Rightarrow> string \<Rightarrow> string \<Rightarrow> (string \<times> string) list \<Rightarrow> error + 'n resourceMatch list"
where
  "Search_searchStackTemplate env stackName resourceType propertyFilters =
     (case GetTemplate env stackName of
        Inl err \<Rightarrow> Inl (GetTemplateError err)
      | Inr output \<Rightarrow>
          (case parseTemplate (json_Unmarshal env) (yaml_Unmarshal env) (getValue output) of
             Inl e \<Rightarrow> Inl e
           | Inr template \<Rightarrow>
               Inr (Search_searchResources (Sprintf_v env) template resourceType propertyFilters)))"

definition List_searchStackTemplate ::
  "'n services \<Rightarrow> string \<Rightarrow> string \<Rightarrow> string \<Rightarrow> (string \<times> string) list
   \<Rightarrow> error + 'n resourceMatch list"
where
  "List_searchStackTemplate env stackName resType resName propertyFilters =
     (case GetTemplate env stackName of
        Inl err \<Rightarrow> Inl (GetTemplateError err)
      | Inr output \<Rightarrow>
          (case parseTemplate (json_Unmarshal env) (yaml_Unmarshal env) (getValue output) of
             Inl e \<Rightarrow> Inl e
           | Inr template \<Rightarrow>
               Inr (List_searchResources (Sprintf_v env) template resType resName
                      propertyFilters)))"

section \<open>The search loops over the stacks\<close>

text \<open>
  The network calls a command makes, in order, are part of its result: the loop carries
  them with the accumulated stack matches.
\<close>

datatype call = CallListStacks | CallGetTemplate string

text \<open>
  Lines 79-97 of cmd/search.go:
  \<^verbatim>\<open>
  for _, stack := range stacks {
      if stack.StackName == nil { continue }
      matches, err := searchStackTemplate(ctx, client, *stack.StackName, resourceType, propertyFilters)
      if err != nil { continue }
      if len(matches) > 0 {
          matchingStacks = append(matchingStacks, stackMatch{stackName: *stack.StackName, resources: matches})
      }
  }
  \<close>
\<close>

fun runSearch_loop ::
  "'n services \<Rightarrow> string \<Rightarrow> (string \<times> string) list \<Rightarrow> stackSummary list
   \<Rightarrow> call list \<times> 'n stackMatch list \<Rightarrow> call list \<times> 'n stackMatch list"
where
  "runSearch_loop env resourceType propertyFilters [] st = st"
| "runSearch_loop env resourceType propertyFilters (stack # stacks) (calls, matchingStacks) =
     (case StackName stack of
        None \<Rightarrow> runSearch_loop env resourceType propertyFilters stacks (calls, matchingStacks)
      | Some name \<Rightarrow>
          (case Search_searchStackTemplate env name resourceType propertyFilters of
             Inl err \<Rightarrow>
               runSearch_loop env resourceType propertyFilters stacks
                 (calls @ [CallGetTemplate name], matchingStacks)
           | Inr matches \<Rightarrow>
               if length matches > 0
               then runSearch_loop env resourceType propertyFilters stacks
                      (calls @ [CallGetTemplate name],
                       matchingStacks @ [\<lparr>sm_stackName = name, sm_resources = matches\<rparr>])
               else runSearch_loop env resourceType propertyFilters stacks
                      (calls @ [CallGetTemplate name], matchingStacks)))"

text \<open>The same loop in \<^verbatim>\<open>runResourceSearch\<close> of the list command.\<close>

fun runResourceSearch_loop ::
  "'n services \<Rightarrow> string \<Rightarrow> string \<Rightarrow> (string \<times> string) list \<Rightarrow> stackSummary list
   \<Rightarrow> call list \<times> 'n stackMatch list \<Rightarrow> call list \<times> 'n stackMatch list"
where
  "runResourceSearch_loop env resType resName propertyFilters [] st = st"
| "runResourceSearch_loop env resType resName propertyFilters (stack # stacks)
       (calls, matchingStacks) =
     (case StackName stack of
        None \<Rightarrow>
          runResourceSearch_loop env resType resName propertyFilters stacks (calls, matchingStacks)
      | Some name \<Rightarrow>
          (case List_searchStackTemplate env name resType resName propertyFilters of
             Inl err \<Rightarrow>
               runResourceSearch_loop env resType resName propertyFilters stacks
                 (calls @ [CallGetTemplate name], matchingStacks)
           | Inr matches \<Rightarrow>
               if length matches > 0
               then runResourceSearch_loop env resType resName propertyFilters stacks
                      (calls @ [CallGetTemplate name],
                       matchingStacks @ [\<lparr>sm_stackName = name, sm_resources = matches\<rparr>])
               else runResourceSearch_loop env resType resName propertyFilters stacks
                      (calls @ [CallGetTemplate name], matchingStacks)))"

text \<open>
  What one stack contributes to the Search Result, in the specification's words: nothing
  when the stack has no name, when fetching or parsing fails, or when no resource
  matches; otherwise one Stack Match.
\<close>

definition stackEntry ::
  "'n services \<Rightarrow> string \<Rightarrow> (string \<times> string) list \<Rightarrow> stackSummary \<Rightarrow> 'n stackMatch option"
where
  "stackEntry env resourceType propertyFilters stack =
     (case StackName stack of
        None \<Rightarrow> None
      | Some name \<Rightarrow>
          (case Search_searchStackTemplate env name resourceType propertyFilters of
             Inl err \<Rightarrow> None
           | Inr matches \<Rightarrow>
               if matches = [] then None
               else Some \<lparr>sm_stackName = name, sm_resources = matches\<rparr>))"

text \<open>
  A stack fails when its template cannot be fetched, when the body is empty, or when
  neither decoder accepts the body.
\<close>

definition stackFails :: "'n services \<Rightarrow> stackSummary \<Rightarrow> bool" where
  "stackFails env stack =
     (case StackName stack of
        None \<Rightarrow> False
      | Some name \<Rightarrow>
          (case GetTemplate env name of
             Inl err \<Rightarrow> True
           | Inr output \<Rightarrow>
               getValue output = [] \<or>
               (isl (json_Unmarshal env (getValue output)) \<and>
                isl (yaml_Unmarshal env (getValue output)))))"

section \<open>The commands\<close>

text \<open>
  Modelled from the spec: \<^verbatim>\<open>fatalf\<close> is not among the sources. It reports its message
  and ends the process with a non-zero status ("fatal, reported to the user, process exits
  non-zero"), so a command that calls it ends with \<open>Fatal\<close> and does nothing after it. The
  message is kept as the kind of error and the text it names.
\<close>

datatype fatal =
    ConfigurationError string
  | InvalidPropertyFormat string
  | FailedToListStacks string
  | NameFilterTwice

datatype 'n outcome =
    Fatal fatal
  | NoStacksToSearch
  | SearchDone "'n stackMatch list"
  | NoStacksFound
  | Listed "stackSummary list"

text \<open>
  \<^verbatim>\<open>strings.SplitN(s, sep, 2)\<close> with a one-byte separator: the string itself when the
  separator does not occur, else the text before the first occurrence and the text after
  it.
\<close>

definition strings_SplitN2 :: "char \<Rightarrow> string \<Rightarrow> string list" where
  "strings_SplitN2 sep s =
     (if sep \<in> set s
      then [takeWhile (\<lambda>c. c \<noteq> sep) s, tl (dropWhile (\<lambda>c. c \<noteq> sep) s)]
      else [s])"

text \<open>
  The loop that parses the \<^verbatim>\<open>--property\<close> tokens (lines 56-63 of cmd/search.go, and the
  same text in \<^verbatim>\<open>runResourceSearch\<close>):
  \<^verbatim>\<open>
  for _, prop := range searchProperties {
      parts := strings.SplitN(prop, "=", 2)
      if len(parts) != 2 { fatalf("invalid property format %q, expected key=value\n", prop) }
      propertyFilters[parts[0]] = parts[1]
  }
  \<close>
\<close>

fun parsePropertyFilters ::
  "string list \<Rightarrow> (string \<times> string) list \<Rightarrow> fatal + (string \<times> string) list"
where
  "parsePropertyFilters [] propertyFilters = Inr propertyFilters"
| "parsePropertyFilters (prop # props) propertyFilters =
     (let parts = strings_SplitN2 (CHR ''='') prop in
      if length parts \<noteq> 2 then Inl (InvalidPropertyFormat prop)
      else parsePropertyFilters props (AList.update (parts ! 0) (parts ! 1) propertyFilters))"

record searchFlags =
  searchProperties :: "string list"
  searchFilterAll :: bool
  searchFilterComplete :: bool
  searchFilterDeleted :: bool
  searchFilterInProgress :: bool

text \<open>\<^verbatim>\<open>runSearch\<close>, lines 51-122 of cmd/search.go, up to the printing of the result.\<close>

definition runSearch :: "'n services \<Rightarrow> searchFlags \<Rightarrow> string \<Rightarrow> call list \<times> 'n outcome" where
  "runSearch env flags resourceType =
     (case mustClient env of
        Some err \<Rightarrow> ([], Fatal (ConfigurationError err))
      | None \<Rightarrow>
          (case parsePropertyFilters (searchProperties flags) [] of
             Inl f \<Rightarrow> ([], Fatal f)
           | Inr propertyFilters \<Rightarrow>
               (case listStacks env
                       (searchFilterAll flags, searchFilterComplete flags,
                        searchFilterDeleted flags, searchFilterInProgress flags) [] [] [] of
                  Inl err \<Rightarrow> ([CallListStacks], Fatal (FailedToListStacks err))
                | Inr stacks \<Rightarrow>
                    if length stacks = 0 then ([CallListStacks], NoStacksToSearch)
                    else (case runSearch_loop env resourceType propertyFilters stacks
                                 ([CallListStacks], []) of
                            (calls, matchingStacks) \<Rightarrow> (calls, SearchDone matchingStacks)))))"

text \<open>
  The flags of the list command are the package variables \<^verbatim>\<open>filterAll\<close>, ...,
  \<^verbatim>\<open>properties\<close>; the fields carry the prefix \<open>flag_\<close>.
\<close>

record listFlags =
  flag_filterAll :: bool
  flag_filterComplete :: bool
  flag_filterDeleted :: bool
  flag_filterInProgress :: bool
  flag_nameFilter :: string
  flag_descContains :: string
  flag_descNotContains :: string
  flag_namesOnly :: bool
  flag_resourceType :: string
  flag_resourceName :: string
  flag_properties :: "string list"

text \<open>
  \<^verbatim>\<open>runResourceSearch\<close> of the list command: it receives the stacks that \<^verbatim>\<open>runList\<close>
  has listed, and only then parses the property tokens.
\<close>

definition runResourceSearch ::
  "'n services \<Rightarrow> listFlags \<Rightarrow> stackSummary list \<Rightarrow> call list \<Rightarrow> call list \<times> 'n outcome"
where
  "runResourceSearch env flags stacks calls =
     (case parsePropertyFilters (flag_properties flags) [] of
        Inl f \<Rightarrow> (calls, Fatal f)
      | Inr propertyFilters \<Rightarrow>
          if length stacks = 0 then (calls, NoStacksToSearch)
          else (case runResourceSearch_loop env (flag_resourceType flags)
                       (flag_resourceName flags) propertyFilters stacks (calls, []) of
                  (calls', matchingStacks) \<Rightarrow> (calls', SearchDone matchingStacks)))"

text \<open>\<^verbatim>\<open>runList\<close> after the name filter is settled: the client, the listing, the mode.\<close>

definition runList_listing ::
  "'n services \<Rightarrow> listFlags \<Rightarrow> string \<Rightarrow> call list \<times> 'n outcome"
where
  "runList_listing env flags nameFilter =
     (case mustClient env of
        Some err \<Rightarrow> ([], Fatal (ConfigurationError err))
      | None \<Rightarrow>
          (case listStacks env
                  (flag_filterAll flags, flag_filterComplete flags,
                   flag_filterDeleted flags, flag_filterInProgress flags)
                  nameFilter (flag_descContains flags) (flag_descNotContains flags) of
             Inl err \<Rightarrow> ([CallListStacks], Fatal (FailedToListStacks err))
           | Inr stacks \<Rightarrow>
               if flag_resourceType flags \<noteq> [] \<or> flag_resourceName flags \<noteq> []
                  \<or> length (flag_properties flags) > 0
               then runResourceSearch env flags stacks [CallListStacks]
               else if flag_namesOnly flags then ([CallListStacks], Listed stacks)
               else if length stacks = 0 then ([CallListStacks], NoStacksFound)
               else ([CallListStacks], Listed stacks)))"

definition runList :: "'n services \<Rightarrow> listFlags \<Rightarrow> string list \<Rightarrow> call list \<times> 'n outcome" where
  "runList env flags args =
     (if length args > 0 \<and> flag_nameFilter flags = [] then runList_listing env flags (args ! 0)
      else if length args > 0 \<and> flag_nameFilter flags \<noteq> [] then ([], Fatal NameFilterTwice)
      else runList_listing env flags (flag_nameFilter flags))"

section \<open>Decoders and services of the examples\<close>

text \<open>Decoders for the examples: each accepts one fixed text.\<close>

definition json_example :: "string \<Rightarrow> string + int gomap" where
  "json_example body =
     (if body = ''{\"Resources\":{\"Bucket\":{\"Type\":\"AWS::S3::Bucket\"}}}''
      then Inr [(''Resources'', IMap [(''Bucket'', IMap [(''Type'', IString ''AWS::S3::Bucket'')])])]
      else Inl ''invalid character'')"

definition yaml_example :: "string \<Rightarrow> string + int gomap" where
  "yaml_example body =
     (if body = ''Resources: {Topic: {Type: AWS::SNS::Topic}}''
      then Inr [(''Resources'', IMap [(''Topic'', IMap [(''Type'', IString ''AWS::SNS::Topic'')])])]
      else Inl ''yaml: unmarshal errors'')"


text \<open>
  Services for the examples: the template of \<open>stack2\<close> cannot be fetched, every other
  stack has the one-bucket template; three stacks are listed.
\<close>

definition services_example :: "int services" where
  "services_example =
     \<lparr>GetTemplate = (\<lambda>name. if name = ''stack2'' then Inl ''AccessDenied''
          else Inr (Some ''{\"Resources\":{\"Bucket\":{\"Type\":\"AWS::S3::Bucket\"}}}'')),
      json_Unmarshal = json_example,
      yaml_Unmarshal = yaml_example,
      Sprintf_v = sprint_scalar,
      mustClient = None,
      listStacks = (\<lambda>statusFlags nameContains descContains descExcludes.
          Inr [\<lparr>StackName = Some ''stack1'', StackStatus = ''CREATE_COMPLETE''\<rparr>,
               \<lparr>StackName = Some ''stack2'', StackStatus = ''CREATE_COMPLETE''\<rparr>,
               \<lparr>StackName = Some ''stack3'', StackStatus = ''UPDATE_COMPLETE''\<rparr>])\<rparr>"

section \<open>The status and name filter\<close>

text \<open>
  The four predicates of the stand-alone program (package main of the unnamed source,
  lines 152-181). \<^verbatim>\<open>isActiveStatus\<close> searches a fixed list:
  \<^verbatim>\<open>
  for _, state := range completeStates { if status == state { return true } }
  return false
  \<close>
\<close>

definition completeStates :: "string list" where
  "completeStates =
     [''CREATE_COMPLETE'', ''UPDATE_COMPLETE'', ''ROLLBACK_COMPLETE'',
      ''UPDATE_ROLLBACK_COMPLETE'', ''IMPORT_COMPLETE'', ''IMPORT_ROLLBACK_COMPLETE'']"

fun isActiveStatus_loop :: "string list \<Rightarrow> string \<Rightarrow> bool" where
  "isActiveStatus_loop [] status = False"
| "isActiveStatus_loop (state # states) status =
     (if status = state then True else isActiveStatus_loop states status)"

definition isActiveStatus :: "string \<Rightarrow> bool" where
  "isActiveStatus status = isActiveStatus_loop completeStates status"

definition isCompleteStatus :: "string \<Rightarrow> bool" where
  "isCompleteStatus status = strings_HasSuffix status ''_COMPLETE''"

definition isDeletedStatus :: "string \<Rightarrow> bool" where
  "isDeletedStatus status = strings_HasPrefix status ''DELETE_''"

definition isInProgressStatus :: "string \<Rightarrow> bool" where
  "isInProgressStatus status = strings_HasSuffix status ''_IN_PROGRESS''"

text \<open>
  \<^verbatim>\<open>filterStacks\<close> (lines 106-150). The name test dereferences \<^verbatim>\<open>stack.StackName\<close>; on
  a \<^verbatim>\<open>nil\<close> name the program panics. \<^verbatim>\<open>strings.ToLower\<close> is a parameter.

  The status part of one iteration (lines 118-146) says whether the stack is appended:
  \<^verbatim>\<open>
  if noStatusFilter {
      if !strings.HasPrefix(status, "DELETE_COMPLETE") { filtered = append(filtered, stack) }
      continue
  }
  matched := false
  if active && isActiveStatus(status) { matched = true }
  if complete && isCompleteStatus(status) { matched = true }
  if deleted && isDeletedStatus(status) { matched = true }
  if inProgress && isInProgressStatus(status) { matched = true }
  if matched { filtered = append(filtered, stack) }
  \<close>
\<close>

datatype panic = NilPointerDereference

definition filterStacks_status :: "bool \<Rightarrow> bool \<Rightarrow> bool \<Rightarrow> bool \<Rightarrow> string \<Rightarrow> bool" where
  "filterStacks_status active complete deleted inProgress status =
     (let noStatusFilter = \<not> active \<and> \<not> complete \<and> \<not> deleted \<and> \<not> inProgress in
      if noStatusFilter then \<not> strings_HasPrefix status ''DELETE_COMPLETE''
      else
        (let matched = False;
             matched = (if active \<and> isActiveStatus status then True else matched);
             matched = (if complete \<and> isCompleteStatus status then True else matched);
             matched = (if deleted \<and> isDeletedStatus status then True else matched);
             matched = (if inProgress \<and> isInProgressStatus status then True else matched)
         in matched))"

fun filterStacks_loop ::
  "(string \<Rightarrow> string) \<Rightarrow> bool \<Rightarrow> bool \<Rightarrow> bool \<Rightarrow> bool \<Rightarrow> string \<Rightarrow> stackSummary list
   \<Rightarrow> stackSummary list \<Rightarrow> panic + stackSummary list"
where
  "filterStacks_loop toLower active complete deleted inProgress nameFilter [] filtered =
     Inr filtered"
| "filterStacks_loop toLower active complete deleted inProgress nameFilter (stack # stacks)
       filtered =
     (if nameFilter \<noteq> [] \<and> StackName stack = None then Inl NilPointerDereference
      else if nameFilter \<noteq> []
              \<and> \<not> strings_Contains (toLower (the (StackName stack))) (toLower nameFilter)
      then filterStacks_loop toLower active complete deleted inProgress nameFilter stacks filtered
      else if filterStacks_status active complete deleted inProgress (StackStatus stack)
      then filterStacks_loop toLower active complete deleted inProgress nameFilter stacks
             (filtered @ [stack])
      else filterStacks_loop toLower active complete deleted inProgress nameFilter stacks
             filtered)"

definition filterStacks ::
  "(string \<Rightarrow> string) \<Rightarrow> stackSummary list \<Rightarrow> bool \<Rightarrow> bool \<Rightarrow> bool \<Rightarrow> bool \<Rightarrow> string
   \<Rightarrow> panic + stackSummary list"
where
  "filterStacks toLower stacks active complete deleted inProgress nameFilter =
     filterStacks_loop toLower active complete deleted inProgress nameFilter stacks []"

text \<open>
  \<^verbatim>\<open>strings.ToLower\<close> on ASCII text, for the examples: the letters \<open>A\<close> to \<open>Z\<close> become
  \<open>a\<close> to \<open>z\<close>, every other byte stays.
\<close>

definition ascii_ToLower :: "string \<Rightarrow> string" where
  "ascii_ToLower s =
     map (\<lambda>c. case map_of (zip ''ABCDEFGHIJKLMNOPQRSTUVWXYZ'' ''abcdefghijklmnopqrstuvwxyz'') c of
                 None \<Rightarrow> c
               | Some l \<Rightarrow> l) s"

text \<open>
  The values of \<^verbatim>\<open>types.StackStatus\<close>, the type of \<^verbatim>\<open>stack.StackStatus\<close>: the
  enumeration that the SDK of the service declares. The declaration is not among the
  sources; \<^verbatim>\<open>filterStacks\<close> is called on the output of the listing call, whose statuses
  are these.
\<close>

definition StackStatus_Values :: "string list" where
  "StackStatus_Values =
     [''CREATE_IN_PROGRESS'', ''CREATE_FAILED'', ''CREATE_COMPLETE'',
      ''ROLLBACK_IN_PROGRESS'', ''ROLLBACK_FAILED'', ''ROLLBACK_COMPLETE'',
      ''DELETE_IN_PROGRESS'', ''DELETE_FAILED'', ''DELETE_COMPLETE'',
      ''UPDATE_IN_PROGRESS'', ''UPDATE_COMPLETE_CLEANUP_IN_PROGRESS'', ''UPDATE_COMPLETE'',
      ''UPDATE_FAILED'', ''UPDATE_ROLLBACK_IN_PROGRESS'', ''UPDATE_ROLLBACK_FAILED'',
      ''UPDATE_ROLLBACK_COMPLETE_CLEANUP_IN_PROGRESS'', ''UPDATE_ROLLBACK_COMPLETE'',
      ''REVIEW_IN_PROGRESS'', ''IMPORT_IN_PROGRESS'', ''IMPORT_COMPLETE'',
      ''IMPORT_ROLLBACK_IN_PROGRESS'', ''IMPORT_ROLLBACK_FAILED'',
      ''IMPORT_ROLLBACK_COMPLETE'']"

text \<open>
  The admission rule in the specification's words: without a status flag every status
  but \<open>DELETE_COMPLETE\<close>; with flags, a status in at least one requested category; and,
  when a name filter is given, a name that contains it, letter case apart.
\<close>

definition admitted ::
  "(string \<Rightarrow> string) \<Rightarrow> bool \<Rightarrow> bool \<Rightarrow> bool \<Rightarrow> bool \<Rightarrow> string \<Rightarrow> stackSummary \<Rightarrow> bool"
where
  "admitted toLower active complete deleted inProgress nameFilter stack =
     ((nameFilter = [] \<or>
       (case StackName stack of
          None \<Rightarrow> False
        | Some name \<Rightarrow> strings_Contains (toLower name) (toLower nameFilter)))
      \<and> (if \<not> active \<and> \<not> complete \<and> \<not> deleted \<and> \<not> inProgress
         then StackStatus stack \<noteq> ''DELETE_COMPLETE''
         else (active \<and> isActiveStatus (StackStatus stack))
            \<or> (complete \<and> isCompleteStatus (StackStatus stack))
            \<or> (deleted \<and> isDeletedStatus (StackStatus stack))
            \<or> (inProgress \<and> isInProgressStatus (StackStatus stack))))"

section \<open>Splitting and joining paths\<close>

lemma strings_Split_not_Nil: "strings_Split sep s \<noteq> []"
  by (induction s) (auto split: list.splits)

lemma strings_Split_no_sep: "sep \<notin> set s \<Longrightarrow> strings_Split sep s = [s]"
  by (induction s) auto

lemma strings_Split_append:
  "sep \<notin> set p \<Longrightarrow> strings_Split sep (p @ sep # s) = p # strings_Split sep s"
  by (induction p) (auto split: list.splits)

lemma strings_Split_Join:
  "segs \<noteq> [] \<Longrightarrow> \<forall>s \<in> set segs. sep \<notin> set s \<Longrightarrow>
   strings_Split sep (strings_Join sep segs) = segs"
proof (induction sep segs rule: strings_Join.induct)
  case (1 sep)
  then show ?case by simp
next
  case (2 sep p)
  then show ?case by (simp add: strings_Split_no_sep)
next
  case (3 sep p q ps)
  then show ?case by (simp add: strings_Split_append)
qed

section \<open>The resolver walks the path\<close>

lemma descends_loop: "descends v segs leaf \<Longrightarrow> getNestedProperty_loop segs v = leaf"
  by (induction rule: descends.induct) auto

lemma loop_descends_or_nil:
  "descends v segs (getNestedProperty_loop segs v) \<or>
   ((\<nexists>leaf. descends v segs leaf) \<and> getNestedProperty_loop segs v = INil)"
proof (induction segs arbitrary: v)
  case Nil
  show ?case by (simp add: descends.here)
next
  case (Cons seg segs)
  show ?case
  proof (cases v)
    case (IMap m)
    show ?thesis
    proof (cases "map_of m seg")
      case None
      with IMap show ?thesis by (auto elim: descends_ConsE)
    next
      case (Some w)
      from Cons.IH [of w] show ?thesis
      proof
        assume "descends w segs (getNestedProperty_loop segs w)"
        with IMap Some show ?thesis by (auto intro: descends.step)
      next
        assume "(\<nexists>leaf. descends w segs leaf) \<and> getNestedProperty_loop segs w = INil"
        with IMap Some show ?thesis by (auto elim: descends_ConsE)
      qed
    qed
  qed (auto elim: descends_ConsE)
qed

lemma descends_unique: "descends v segs a \<Longrightarrow> descends v segs b \<Longrightarrow> a = b"
  using descends_loop by metis

section \<open>What the resolver returns\<close>

text \<open>
  C4. For every document and every non-empty sequence of segments (none containing a dot),
  the resolver applied to the dotted path returns the leaf when the walk over mappings
  exists, and Go's \<^verbatim>\<open>nil\<close> (the absence signal) when at some step the current value is
  not a mapping holding the next segment; it never returns the value of a partial path.
  In particular \<open>{"Versioning":{"Status":"Enabled"}}\<close> at \<open>Versioning.Status\<close> is
  \<open>"Enabled"\<close>, and \<open>{"A":1}\<close> at \<open>A.B\<close> is absent.
\<close>

theorem getNestedProperty_walks_path:
  assumes "segs \<noteq> []" and "\<forall>s \<in> set segs. CHR ''.'' \<notin> set s"
  shows "(descends (IMap props) segs leaf \<longrightarrow>
            getNestedProperty props (strings_Join (CHR ''.'') segs) = leaf)
       \<and> ((\<nexists>v. descends (IMap props) segs v) \<longrightarrow>
            getNestedProperty props (strings_Join (CHR ''.'') segs) = INil)
       \<and> getNestedProperty
            [(''Versioning'', IMap [(''Status'', IString ''Enabled'')])] ''Versioning.Status''
            = (IString ''Enabled'' :: int iface)
       \<and> getNestedProperty [(''A'', INumber (1::int))] ''A.B'' = INil"
proof -
  have split: "strings_Split (CHR ''.'') (strings_Join (CHR ''.'') segs) = segs"
    using assms by (rule strings_Split_Join)
  have a: "descends (IMap props) segs leaf \<longrightarrow>
      getNestedProperty props (strings_Join (CHR ''.'') segs) = leaf"
    by (simp add: getNestedProperty_def split descends_loop)
  have b: "(\<nexists>v. descends (IMap props) segs v) \<longrightarrow>
      getNestedProperty props (strings_Join (CHR ''.'') segs) = INil"
    using loop_descends_or_nil [of "IMap props" segs]
    by (auto simp: getNestedProperty_def split)
  have c: "getNestedProperty
      [(''Versioning'', IMap [(''Status'', IString ''Enabled'')])] ''Versioning.Status''
      = (IString ''Enabled'' :: int iface)"
    by (simp add: getNestedProperty_def)
  have d: "getNestedProperty [(''A'', INumber (1::int))] ''A.B'' = INil"
    by (simp add: getNestedProperty_def)
  from a b c d show ?thesis by blast
qed

theorem getNestedProperty_walks_path_witness:
  "[''Versioning'', ''Status''] \<noteq> []
   \<and> CHR ''.'' \<notin> set ''Versioning'' \<and> CHR ''.'' \<notin> set ''Status''
   \<and> descends (IMap [(''Versioning'', IMap [(''Status'', IString ''Enabled'')])])
        [''Versioning'', ''Status''] (IString ''Enabled'' :: int iface)
   \<and> getNestedProperty [(''Versioning'', IMap [(''Status'', IString ''Enabled'')])]
        (strings_Join (CHR ''.'') [''Versioning'', ''Status'']) = (IString ''Enabled'' :: int iface)
   \<and> (\<nexists>v. descends (IMap [(''A'', INumber (1::int))]) [''A'', ''B''] v)
   \<and> getNestedProperty [(''A'', INumber (1::int))] (strings_Join (CHR ''.'') [''A'', ''B''])
        = INil"
proof -
  have h1: "[''Versioning'', ''Status''] \<noteq> []" by simp
  have h2: "\<forall>s \<in> set [''Versioning'', ''Status'']. CHR ''.'' \<notin> set s" by simp
  have h3: "descends (IMap [(''Versioning'', IMap [(''Status'', IString ''Enabled'')])])
        [''Versioning'', ''Status''] (IString ''Enabled'' :: int iface)"
    by (rule descends.step [where v = "IMap [(''Status'', IString ''Enabled'')]"], simp,
        rule descends.step [where v = "IString ''Enabled''"], simp, rule descends.here)
  have k1: "[''A'', ''B''] \<noteq> []" by simp
  have k2: "\<forall>s \<in> set [''A'', ''B'']. CHR ''.'' \<notin> set s" by simp
  have k3: "\<nexists>v. descends (IMap [(''A'', INumber (1::int))]) [''A'', ''B''] v"
    by (auto elim!: descends_ConsE)
  show ?thesis
    using h1 h3 k3
      getNestedProperty_walks_path [OF h1 h2,
        of "[(''Versioning'', IMap [(''Status'', IString ''Enabled'')])]" "IString ''Enabled''"]
      getNestedProperty_walks_path [OF k1 k2, of "[(''A'', INumber (1::int))]" INil]
    by simp
qed

section \<open>Property filters\<close>

lemma checkProperties_loop_eq:
  "checkProperties_loop fmtv properties filters acc =
     (if list_all (propertyHolds fmtv properties) filters
      then (True, recordAll properties filters acc) else (False, []))"
  by (induction filters arbitrary: acc) (auto simp: propertyHolds_def Let_def)

lemma checkProperties_eq:
  "checkProperties fmtv properties filters =
     (if list_all (propertyHolds fmtv properties) filters
      then (True, recordAll properties filters []) else (False, []))"
  by (simp add: checkProperties_def checkProperties_loop_eq)

lemma map_of_recordAll:
  "map_of (recordAll properties filters acc) k =
     (if k \<in> fst ` set filters then Some (getNestedProperty properties k) else map_of acc k)"
  by (induction filters arbitrary: acc) (auto simp: update_conv')

lemma distinct_recordAll:
  "distinct (map fst acc) \<Longrightarrow> distinct (map fst (recordAll properties filters acc))"
  by (induction filters arbitrary: acc) (auto simp: distinct_update)

lemma keys_recordAll:
  "fst ` set (recordAll properties filters acc) = fst ` set filters \<union> fst ` set acc"
  by (induction filters arbitrary: acc) (auto simp: dom_update image_iff)

lemma values_recordAll:
  assumes "(path, v) \<in> set (recordAll properties filters [])"
  shows "v = getNestedProperty properties path"
proof -
  have "distinct (map fst (recordAll properties filters []))"
    by (rule distinct_recordAll) simp
  with assms have "map_of (recordAll properties filters []) path = Some v"
    by simp
  moreover have "path \<in> fst ` set filters"
    using assms keys_recordAll [of properties filters "[]"] by force
  ultimately show ?thesis by (simp add: map_of_recordAll)
qed

lemma Search_matchResource_typed:
  assumes "map_of resourceMap ''Type'' = Some (IString resourceType)"
      and "map_of resourceMap ''Properties'' = Some (IMap properties)"
      and "propertyFilters \<noteq> []"
  shows "Search_matchResource fmtv resourceType propertyFilters (logicalID, IMap resourceMap) =
     (if list_all (propertyHolds fmtv properties) propertyFilters
      then Some \<lparr>rm_logicalID = logicalID, rm_resourceType = resourceType,
                 rm_matchedProperties = recordAll properties propertyFilters []\<rparr>
      else None)"
  using assms by (simp add: Search_matchResource_def checkProperties_eq)

text \<open>
  C1. For a resource of the wanted type whose \<open>Properties\<close> is a mapping, and a non-empty
  set of property filters, the search command's matcher emits a match exactly when every
  filter \<open>(path, expected)\<close> resolves to a value (not \<^verbatim>\<open>nil\<close>) whose formatted form equals
  \<open>expected\<close>; the match then records one entry per filter path, holding the resolved
  value. With no property filter the resource qualifies on its type alone, with an empty
  matched-properties map. With filters, a resource whose \<open>Properties\<close> is absent or not a
  mapping is skipped.
\<close>

theorem Search_property_filters_conjunctive:
  assumes "map_of resourceMap ''Type'' = Some (IString resourceType)"
  shows "(propertyFilters \<noteq> [] \<longrightarrow> map_of resourceMap ''Properties'' = Some (IMap properties) \<longrightarrow>
            ((\<exists>m. Search_matchResource fmtv resourceType propertyFilters
                    (logicalID, IMap resourceMap) = Some m) \<longleftrightarrow>
             (\<forall>(path, expected) \<in> set propertyFilters.
                 getNestedProperty properties path \<noteq> INil \<and>
                 fmtv (getNestedProperty properties path) = expected)))
       \<and> (propertyFilters \<noteq> [] \<longrightarrow> map_of resourceMap ''Properties'' = Some (IMap properties) \<longrightarrow>
            (\<forall>m. Search_matchResource fmtv resourceType propertyFilters
                    (logicalID, IMap resourceMap) = Some m \<longrightarrow>
                 rm_logicalID m = logicalID \<and> rm_resourceType m = resourceType \<and>
                 distinct (map fst (rm_matchedProperties m)) \<and>
                 fst ` set (rm_matchedProperties m) = fst ` set propertyFilters \<and>
                 (\<forall>(path, v) \<in> set (rm_matchedProperties m).
                     v = getNestedProperty properties path)))
       \<and> Search_matchResource fmtv resourceType [] (logicalID, IMap resourceMap) =
            Some \<lparr>rm_logicalID = logicalID, rm_resourceType = resourceType,
                  rm_matchedProperties = []\<rparr>
       \<and> (propertyFilters \<noteq> [] \<longrightarrow>
            (\<nexists>p. map_of resourceMap ''Properties'' = Some (IMap p)) \<longrightarrow>
            Search_matchResource fmtv resourceType propertyFilters
              (logicalID, IMap resourceMap) = None)"
proof -
  have holds: "list_all (propertyHolds fmtv properties) propertyFilters \<longleftrightarrow>
      (\<forall>(path, expected) \<in> set propertyFilters.
          getNestedProperty properties path \<noteq> INil \<and>
          fmtv (getNestedProperty properties path) = expected)"
    by (auto simp: list_all_iff propertyHolds_def)
  have a: "propertyFilters \<noteq> [] \<longrightarrow> map_of resourceMap ''Properties'' = Some (IMap properties) \<longrightarrow>
            ((\<exists>m. Search_matchResource fmtv resourceType propertyFilters
                    (logicalID, IMap resourceMap) = Some m) \<longleftrightarrow>
             (\<forall>(path, expected) \<in> set propertyFilters.
                 getNestedProperty properties path \<noteq> INil \<and>
                 fmtv (getNestedProperty properties path) = expected))"
    using assms by (simp add: Search_matchResource_typed holds [symmetric])
  have b: "propertyFilters \<noteq> [] \<longrightarrow> map_of resourceMap ''Properties'' = Some (IMap properties) \<longrightarrow>
          (\<forall>m. Search_matchResource fmtv resourceType propertyFilters
                    (logicalID, IMap resourceMap) = Some m \<longrightarrow>
                 rm_logicalID m = logicalID \<and> rm_resourceType m = resourceType \<and>
                 distinct (map fst (rm_matchedProperties m)) \<and>
                 fst ` set (rm_matchedProperties m) = fst ` set propertyFilters \<and>
                 (\<forall>(path, v) \<in> set (rm_matchedProperties m).
                     v = getNestedProperty properties path))"
  proof (intro impI allI)
    fix m
    assume ne: "propertyFilters \<noteq> []"
      and props: "map_of resourceMap ''Properties'' = Some (IMap properties)"
      and some: "Search_matchResource fmtv resourceType propertyFilters
                    (logicalID, IMap resourceMap) = Some m"
    from some have m: "m = \<lparr>rm_logicalID = logicalID, rm_resourceType = resourceType,
                 rm_matchedProperties = recordAll properties propertyFilters []\<rparr>"
      by (simp add: Search_matchResource_typed [OF assms props ne] split: if_splits)
    have "distinct (map fst (recordAll properties propertyFilters []))"
      by (rule distinct_recordAll) simp
    moreover have "fst ` set (recordAll properties propertyFilters []) = fst ` set propertyFilters"
      by (simp add: keys_recordAll)
    moreover have "\<forall>(path, v) \<in> set (recordAll properties propertyFilters []).
        v = getNestedProperty properties path"
      using values_recordAll by fastforce
    ultimately show "rm_logicalID m = logicalID \<and> rm_resourceType m = resourceType \<and>
                 distinct (map fst (rm_matchedProperties m)) \<and>
                 fst ` set (rm_matchedProperties m) = fst ` set propertyFilters \<and>
                 (\<forall>(path, v) \<in> set (rm_matchedProperties m).
                     v = getNestedProperty properties path)"
      by (simp add: m)
  qed
  have c: "Search_matchResource fmtv resourceType [] (logicalID, IMap resourceMap) =
            Some \<lparr>rm_logicalID = logicalID, rm_resourceType = resourceType,
                  rm_matchedProperties = []\<rparr>"
    using assms by (simp add: Search_matchResource_def)
  have d: "propertyFilters \<noteq> [] \<longrightarrow>
            (\<nexists>p. map_of resourceMap ''Properties'' = Some (IMap p)) \<longrightarrow>
            Search_matchResource fmtv resourceType propertyFilters
              (logicalID, IMap resourceMap) = None"
    using assms
    by (simp add: Search_matchResource_def split: option.splits iface.splits)
  show ?thesis by (rule conjI [OF a conjI [OF b conjI [OF c d]]])
qed

theorem Search_property_filters_conjunctive_witness:
  "map_of [(''Type'', IString ''AWS::SC::Product''),
           (''Properties'', IMap [(''ProductName'', IString ''IAMRole''),
                                  (''ProvisioningArtifactName'', IString ''2.0.0'')])] ''Type''
     = Some (IString ''AWS::SC::Product'' :: int iface)
   \<and> (\<exists>m. Search_matchResource sprint_scalar
            ''AWS::SC::Product''
            [(''ProductName'', ''IAMRole'')]
            (''Role'', IMap [(''Type'', IString ''AWS::SC::Product''),
               (''Properties'', IMap [(''ProductName'', IString ''IAMRole''),
                                      (''ProvisioningArtifactName'', IString ''2.0.0'')])])
          = Some m)
   \<and> (\<nexists>m. Search_matchResource sprint_scalar
            ''AWS::SC::Product''
            [(''ProductName'', ''IAMRole''), (''ProvisioningArtifactName'', ''3.0.0'')]
            (''Role'', IMap [(''Type'', IString ''AWS::SC::Product''),
               (''Properties'', IMap [(''ProductName'', IString ''IAMRole''),
                                      (''ProvisioningArtifactName'', IString ''2.0.0'')])])
          = Some m)"
proof -
  let ?T = "''AWS::SC::Product''"
  let ?P = "[(''ProductName'', IString ''IAMRole''),
             (''ProvisioningArtifactName'', IString ''2.0.0'')] :: int gomap"
  let ?RM = "[(''Type'', IString ?T), (''Properties'', IMap ?P)]"
  have ty: "map_of ?RM ''Type'' = Some (IString ?T)" by simp
  have pr: "map_of ?RM ''Properties'' = Some (IMap ?P)" by simp
  have g1: "getNestedProperty ?P ''ProductName'' = IString ''IAMRole''"
    by (simp add: getNestedProperty_def)
  have g2: "getNestedProperty ?P ''ProvisioningArtifactName'' = IString ''2.0.0''"
    by (simp add: getNestedProperty_def)
  note c1 = Search_property_filters_conjunctive [OF ty,
        of "[(''ProductName'', ''IAMRole'')]" ?P sprint_scalar "''Role''", THEN conjunct1]
  note c2 = Search_property_filters_conjunctive [OF ty,
        of "[(''ProductName'', ''IAMRole''), (''ProvisioningArtifactName'', ''3.0.0'')]" ?P
           sprint_scalar "''Role''", THEN conjunct1]
  have yes: "\<exists>m. Search_matchResource sprint_scalar ?T [(''ProductName'', ''IAMRole'')]
      (''Role'', IMap ?RM) = Some m"
    using c1 pr by (simp add: g1 sprint_scalar_def)
  have no: "\<nexists>m. Search_matchResource sprint_scalar ?T
      [(''ProductName'', ''IAMRole''), (''ProvisioningArtifactName'', ''3.0.0'')]
      (''Role'', IMap ?RM) = Some m"
    using c2 pr by (simp add: g1 g2 sprint_scalar_def)
  show ?thesis by (rule conjI [OF ty conjI [OF yes no]])
qed

section \<open>The two matchers\<close>

lemma Search_matchLoop_eq:
  "Search_matchLoop fmtv resourceType propertyFilters resources matches =
     matches @ List.map_filter (Search_matchResource fmtv resourceType propertyFilters) resources"
  by (induction resources arbitrary: matches) (auto simp: map_filter_simps split: option.splits)

lemma List_matchLoop_eq:
  "List_matchLoop fmtv resType resName propertyFilters resources matches =
     matches @ List.map_filter (List_matchResource fmtv resType resName propertyFilters) resources"
  by (induction resources arbitrary: matches) (auto simp: map_filter_simps split: option.splits)

lemma set_map_filter: "set (List.map_filter f xs) = {y. \<exists>x \<in> set xs. f x = Some y}"
  by (induction xs) (auto simp: map_filter_simps split: option.splits)

lemma matchResource_agree:
  "resourceType \<noteq> [] \<Longrightarrow>
   Search_matchResource fmtv resourceType propertyFilters entry =
   List_matchResource fmtv resourceType [] propertyFilters entry"
  by (simp add: Search_matchResource_def List_matchResource_def
      split: prod.splits iface.splits option.splits)

lemma matchLoop_agree:
  assumes "resourceType \<noteq> []"
  shows "Search_matchLoop fmtv resourceType propertyFilters resources [] =
         List_matchLoop fmtv resourceType [] propertyFilters resources []"
proof -
  have "Search_matchResource fmtv resourceType propertyFilters =
      List_matchResource fmtv resourceType [] propertyFilters"
    by (rule ext) (rule matchResource_agree [OF assms])
  then show ?thesis by (simp add: Search_matchLoop_eq List_matchLoop_eq)
qed

lemma recordAll_cong_set:
  assumes "set pf' = set pf"
  shows "map_of (recordAll properties pf' []) = map_of (recordAll properties pf [])"
  by (rule ext) (simp add: map_of_recordAll assms)

lemma List_matchResource_order:
  assumes "set pf' = set pf"
  shows "map_option matchView (List_matchResource fmtv resType resName pf' entry) =
         map_option matchView (List_matchResource fmtv resType resName pf entry)"
proof -
  have ne: "(pf' = []) = (pf = [])"
    using assms by (metis set_empty)
  show ?thesis
    using ne recordAll_cong_set [OF assms]
    by (auto simp: List_matchResource_def matchView_def checkProperties_eq list_all_iff assms
        split: prod.splits iface.splits option.splits)
qed

lemma view_set_map_filter:
  "matchView ` set (List.map_filter f xs) =
     {v. \<exists>x \<in> set xs. map_option matchView (f x) = Some v}"
  unfolding set_map_filter by (auto simp: image_iff) force+

text \<open>
  C9. For every parsed template, every non-empty resource-type filter and every set of
  property filters, the matcher of the search command and the matcher of the list command
  (called with an empty resource-name filter) emit the same Resource Matches, and the two
  \<^verbatim>\<open>searchStackTemplate\<close> functions return the same result for every stack: the same
  list when both loops visit the maps in the same order, and the same set of
  (logical ID, type, matched properties) whatever the two iteration orders are. With an
  empty type filter they differ: the search command compares \<open>Type\<close> with the empty
  string, the list command does not filter by type.
\<close>

theorem matchers_agree_on_typed_search:
  assumes "resourceType \<noteq> []"
  shows "Search_searchResources fmtv template resourceType propertyFilters =
           List_searchResources fmtv template resourceType [] propertyFilters
       \<and> Search_searchStackTemplate env stackName resourceType propertyFilters =
           List_searchStackTemplate env stackName resourceType [] propertyFilters
       \<and> (set resources' = set resources \<longrightarrow> set propertyFilters' = set propertyFilters \<longrightarrow>
            matchView ` set (Search_matchLoop fmtv resourceType propertyFilters resources []) =
            matchView ` set (List_matchLoop fmtv resourceType [] propertyFilters' resources' []))
       \<and> Search_searchResources sprint_scalar
            [(''Resources'', IMap [(''Bucket'', IMap [(''Type'', IString ''AWS::S3::Bucket'')])])]
            [] [] = []
       \<and> List_searchResources sprint_scalar
            [(''Resources'', IMap [(''Bucket'', IMap [(''Type'', IString ''AWS::S3::Bucket'')])])]
            [] [] []
          = [\<lparr>rm_logicalID = ''Bucket'', rm_resourceType = ''AWS::S3::Bucket'',
               rm_matchedProperties = []\<rparr>]"
proof -
  note loops = matchLoop_agree [OF assms]
  have a: "Search_searchResources fmtv template resourceType propertyFilters =
           List_searchResources fmtv template resourceType [] propertyFilters"
    by (simp add: Search_searchResources_def List_searchResources_def loops
        split: option.splits iface.splits)
  have a': "Search_searchStackTemplate env stackName resourceType propertyFilters =
           List_searchStackTemplate env stackName resourceType [] propertyFilters"
  proof -
    have "Search_searchResources (Sprintf_v env) t resourceType propertyFilters =
        List_searchResources (Sprintf_v env) t resourceType [] propertyFilters" for t
      by (simp add: Search_searchResources_def List_searchResources_def loops
          split: option.splits iface.splits)
    then show ?thesis
      by (simp add: Search_searchStackTemplate_def List_searchStackTemplate_def
          split: sum.splits)
  qed
  have b: "set resources' = set resources \<longrightarrow> set propertyFilters' = set propertyFilters \<longrightarrow>
            matchView ` set (Search_matchLoop fmtv resourceType propertyFilters resources []) =
            matchView ` set (List_matchLoop fmtv resourceType [] propertyFilters' resources' [])"
  proof (intro impI)
    assume rs: "set resources' = set resources"
      and pf: "set propertyFilters' = set propertyFilters"
    have "map_option matchView (Search_matchResource fmtv resourceType propertyFilters e) =
          map_option matchView (List_matchResource fmtv resourceType [] propertyFilters' e)" for e
      using matchResource_agree [OF assms, of fmtv propertyFilters e]
        List_matchResource_order [OF pf, of fmtv resourceType "[]" e]
      by simp
    then show "matchView ` set (Search_matchLoop fmtv resourceType propertyFilters resources []) =
            matchView ` set (List_matchLoop fmtv resourceType [] propertyFilters' resources' [])"
      by (simp add: Search_matchLoop_eq List_matchLoop_eq view_set_map_filter rs)
  qed
  have c: "Search_searchResources sprint_scalar
            [(''Resources'', IMap [(''Bucket'', IMap [(''Type'', IString ''AWS::S3::Bucket'')])])]
            [] [] = []"
    by (simp add: Search_searchResources_def Search_matchResource_def)
  have d: "List_searchResources sprint_scalar
            [(''Resources'', IMap [(''Bucket'', IMap [(''Type'', IString ''AWS::S3::Bucket'')])])]
            [] [] []
          = [\<lparr>rm_logicalID = ''Bucket'', rm_resourceType = ''AWS::S3::Bucket'',
               rm_matchedProperties = []\<rparr>]"
    by (simp add: List_searchResources_def List_matchResource_def)
  show ?thesis by (rule conjI [OF a conjI [OF a' conjI [OF b conjI [OF c d]]]])
qed

theorem matchers_agree_on_typed_search_witness:
  "''AWS::S3::Bucket'' \<noteq> []
   \<and> Search_searchResources sprint_scalar
        [(''Resources'', IMap [(''Bucket'', IMap [(''Type'', IString ''AWS::S3::Bucket'')]),
                               (''Topic'', IMap [(''Type'', IString ''AWS::SNS::Topic'')])])]
        ''AWS::S3::Bucket'' []
      = List_searchResources sprint_scalar
        [(''Resources'', IMap [(''Bucket'', IMap [(''Type'', IString ''AWS::S3::Bucket'')]),
                               (''Topic'', IMap [(''Type'', IString ''AWS::SNS::Topic'')])])]
        ''AWS::S3::Bucket'' [] []
   \<and> List_searchResources sprint_scalar
        [(''Resources'', IMap [(''Bucket'', IMap [(''Type'', IString ''AWS::S3::Bucket'')]),
                               (''Topic'', IMap [(''Type'', IString ''AWS::SNS::Topic'')])])]
        ''AWS::S3::Bucket'' [] []
      = [\<lparr>rm_logicalID = ''Bucket'', rm_resourceType = ''AWS::S3::Bucket'',
           rm_matchedProperties = []\<rparr>]"
proof -
  have ne: "''AWS::S3::Bucket'' \<noteq> []" by simp
  note agree = matchers_agree_on_typed_search [OF ne, THEN conjunct1]
  have run: "List_searchResources sprint_scalar
        [(''Resources'', IMap [(''Bucket'', IMap [(''Type'', IString ''AWS::S3::Bucket'')]),
                               (''Topic'', IMap [(''Type'', IString ''AWS::SNS::Topic'')])])]
        ''AWS::S3::Bucket'' [] []
      = [\<lparr>rm_logicalID = ''Bucket'', rm_resourceType = ''AWS::S3::Bucket'',
           rm_matchedProperties = []\<rparr>]"
    by (simp add: List_searchResources_def List_matchResource_def)
  show ?thesis by (rule conjI [OF ne conjI [OF agree run]])
qed

section \<open>Malformed entries and the type filter\<close>

lemma List_matchResource_SomeD:
  assumes "List_matchResource fmtv resType resName pf (logicalID, resourceData) = Some m"
  shows "\<exists>resourceMap. resourceData = IMap resourceMap
           \<and> map_of resourceMap ''Type'' = Some (IString (rm_resourceType m))
           \<and> rm_logicalID m = logicalID
           \<and> (resType \<noteq> [] \<longrightarrow> rm_resourceType m = resType)"
  using assms
  by (auto simp: List_matchResource_def split: iface.splits option.splits if_splits prod.splits)

text \<open>
  C5. In the list command's matcher, a \<open>Resources\<close> entry whose value is not a mapping, or
  whose node has no string under \<open>Type\<close>, yields no match (it is skipped; the matcher is
  total and returns its list). Every emitted match comes from an entry that is a mapping
  with a string \<open>Type\<close>, and under a non-empty type filter that string equals the filter:
  \<open>AWS::S3::Bucket\<close> does not match the filter \<open>AWS::S3::BucketPolicy\<close>.
\<close>

theorem List_skips_malformed_and_type_exact:
  "((\<nexists>resourceMap. resourceData = IMap resourceMap) \<longrightarrow>
       List_matchResource fmtv resType resName pf (logicalID, resourceData) = None)
   \<and> ((\<nexists>t. map_of resourceMap ''Type'' = Some (IString t)) \<longrightarrow>
       List_matchResource fmtv resType resName pf (logicalID, IMap resourceMap) = None)
   \<and> (resType \<noteq> [] \<longrightarrow>
       List_matchResource fmtv resType resName pf (logicalID, IMap resourceMap) = Some m \<longrightarrow>
       map_of resourceMap ''Type'' = Some (IString resType) \<and> rm_resourceType m = resType)
   \<and> (\<forall>r \<in> set (List_searchResources fmtv template resType resName pf).
         \<exists>resources rmap.
            map_of template ''Resources'' = Some (IMap resources)
          \<and> (rm_logicalID r, IMap rmap) \<in> set resources
          \<and> map_of rmap ''Type'' = Some (IString (rm_resourceType r))
          \<and> (resType \<noteq> [] \<longrightarrow> rm_resourceType r = resType))
   \<and> List_searchResources sprint_scalar
        [(''Resources'', IMap [(''Bucket'', IMap [(''Type'', IString ''AWS::S3::Bucket'')])])]
        ''AWS::S3::BucketPolicy'' [] [] = []
   \<and> List_searchResources sprint_scalar
        [(''Resources'', IMap [(''Broken'', IString ''scalar''),
                               (''Untyped'', IMap [(''Properties'', IMap [])]),
                               (''OddType'', IMap [(''Type'', INumber 3)]),
                               (''Bucket'', IMap [(''Type'', IString ''AWS::S3::Bucket'')])])]
        ''AWS::S3::Bucket'' [] []
      = [\<lparr>rm_logicalID = ''Bucket'', rm_resourceType = ''AWS::S3::Bucket'',
           rm_matchedProperties = []\<rparr>]"
proof -
  have a: "(\<nexists>resourceMap. resourceData = IMap resourceMap) \<longrightarrow>
       List_matchResource fmtv resType resName pf (logicalID, resourceData) = None"
    by (cases resourceData) (simp_all add: List_matchResource_def)
  have b: "(\<nexists>t. map_of resourceMap ''Type'' = Some (IString t)) \<longrightarrow>
       List_matchResource fmtv resType resName pf (logicalID, IMap resourceMap) = None"
    by (simp add: List_matchResource_def split: option.splits iface.splits)
  have c: "resType \<noteq> [] \<longrightarrow>
       List_matchResource fmtv resType resName pf (logicalID, IMap resourceMap) = Some m \<longrightarrow>
       map_of resourceMap ''Type'' = Some (IString resType) \<and> rm_resourceType m = resType"
    using List_matchResource_SomeD [of fmtv resType resName pf logicalID "IMap resourceMap" m]
    by auto
  have d: "\<forall>r \<in> set (List_searchResources fmtv template resType resName pf).
         \<exists>resources rmap.
            map_of template ''Resources'' = Some (IMap resources)
          \<and> (rm_logicalID r, IMap rmap) \<in> set resources
          \<and> map_of rmap ''Type'' = Some (IString (rm_resourceType r))
          \<and> (resType \<noteq> [] \<longrightarrow> rm_resourceType r = resType)"
  proof
    fix r
    assume r: "r \<in> set (List_searchResources fmtv template resType resName pf)"
    then obtain resources where res: "map_of template ''Resources'' = Some (IMap resources)"
      and "r \<in> set (List_matchLoop fmtv resType resName pf resources [])"
      by (auto simp: List_searchResources_def split: option.splits iface.splits) metis
    then obtain entry where mem: "entry \<in> set resources"
      and some: "List_matchResource fmtv resType resName pf entry = Some r"
      by (auto simp: List_matchLoop_eq set_map_filter)
    obtain lid rd where entry: "entry = (lid, rd)"
      by (cases entry)
    from List_matchResource_SomeD [OF some [unfolded entry]]
    obtain rmap where "rd = IMap rmap"
      and "map_of rmap ''Type'' = Some (IString (rm_resourceType r))"
      and "rm_logicalID r = lid"
      and "resType \<noteq> [] \<longrightarrow> rm_resourceType r = resType"
      by blast
    with res mem entry show "\<exists>resources rmap.
            map_of template ''Resources'' = Some (IMap resources)
          \<and> (rm_logicalID r, IMap rmap) \<in> set resources
          \<and> map_of rmap ''Type'' = Some (IString (rm_resourceType r))
          \<and> (resType \<noteq> [] \<longrightarrow> rm_resourceType r = resType)"
      by blast
  qed
  have e: "List_searchResources sprint_scalar
        [(''Resources'', IMap [(''Bucket'', IMap [(''Type'', IString ''AWS::S3::Bucket'')])])]
        ''AWS::S3::BucketPolicy'' [] [] = []"
    by (simp add: List_searchResources_def List_matchResource_def)
  have f: "List_searchResources sprint_scalar
        [(''Resources'', IMap [(''Broken'', IString ''scalar''),
                               (''Untyped'', IMap [(''Properties'', IMap [])]),
                               (''OddType'', IMap [(''Type'', INumber 3)]),
                               (''Bucket'', IMap [(''Type'', IString ''AWS::S3::Bucket'')])])]
        ''AWS::S3::Bucket'' [] []
      = [\<lparr>rm_logicalID = ''Bucket'', rm_resourceType = ''AWS::S3::Bucket'',
           rm_matchedProperties = []\<rparr>]"
    by (simp add: List_searchResources_def List_matchResource_def)
  show ?thesis by (rule conjI [OF a conjI [OF b conjI [OF c conjI [OF d conjI [OF e f]]]]])
qed

theorem List_skips_malformed_and_type_exact_witness:
  "(\<nexists>resourceMap. (IString ''scalar'' :: int iface) = IMap resourceMap)
   \<and> List_matchResource sprint_scalar ''AWS::S3::Bucket'' [] [] (''Broken'', IString ''scalar'') = None
   \<and> (\<nexists>t. map_of [(''Type'', INumber (3::int))] ''Type'' = Some (IString t))
   \<and> List_matchResource sprint_scalar ''AWS::S3::Bucket'' [] []
        (''OddType'', IMap [(''Type'', INumber 3)]) = None"
proof -
  have h1: "\<nexists>resourceMap. (IString ''scalar'' :: int iface) = IMap resourceMap" by simp
  have h2: "\<nexists>t. map_of [(''Type'', INumber (3::int))] ''Type'' = Some (IString t)" by simp
  note t = List_skips_malformed_and_type_exact
  have r1: "List_matchResource sprint_scalar ''AWS::S3::Bucket'' [] []
      (''Broken'', IString ''scalar'') = None"
    using t [THEN conjunct1, of "IString ''scalar''"] h1 by blast
  have r2: "List_matchResource sprint_scalar ''AWS::S3::Bucket'' [] []
        (''OddType'', IMap [(''Type'', INumber 3)]) = None"
    using t [THEN conjunct2, THEN conjunct1, of "[(''Type'', INumber 3)]"] h2 by blast
  show ?thesis by (rule conjI [OF h1 conjI [OF r1 conjI [OF h2 r2]]])
qed

section \<open>Null values\<close>

lemma getNestedProperty_loop_INil: "getNestedProperty_loop segs INil = INil"
  by (cases segs) simp_all

lemma getNestedProperty_absent_or_null:
  assumes "descends (IMap properties) (strings_Split (CHR ''.'') path) INil
         \<or> (\<nexists>v. descends (IMap properties) (strings_Split (CHR ''.'') path) v)"
  shows "getNestedProperty properties path = INil"
  using assms loop_descends_or_nil [of "IMap properties" "strings_Split (CHR ''.'') path"]
  by (auto simp: getNestedProperty_def dest: descends_loop)

lemma checkProperties_nil_fails:
  assumes "getNestedProperty properties path = INil" and "(path, expected) \<in> set filters"
  shows "checkProperties fmtv properties filters = (False, [])"
proof -
  have "\<not> propertyHolds fmtv properties (path, expected)"
    using assms(1) by (simp add: propertyHolds_def)
  with assms(2) have "\<not> list_all (propertyHolds fmtv properties) filters"
    by (auto simp: list_all_iff)
  then show ?thesis by (simp add: checkProperties_eq)
qed

lemma getNestedProperty_delete_null:
  assumes "map_of properties key = Some INil"
  shows "getNestedProperty (AList.delete key properties) path = getNestedProperty properties path"
proof -
  obtain seg segs where split: "strings_Split (CHR ''.'') path = seg # segs"
    using strings_Split_not_Nil [of "CHR ''.''" path] by (cases "strings_Split (CHR ''.'') path") auto
  show ?thesis
    using assms
    by (cases "seg = key")
       (simp_all add: getNestedProperty_def split delete_conv' getNestedProperty_loop_INil)
qed

lemma checkProperties_loop_cong:
  assumes "\<And>path. getNestedProperty p' path = getNestedProperty p path"
  shows "checkProperties_loop fmtv p' filters acc = checkProperties_loop fmtv p filters acc"
  by (induction filters arbitrary: acc) (auto simp: assms Let_def)

text \<open>
  C10. When the leaf under a path is a null, the resolver returns \<^verbatim>\<open>nil\<close>, the value it
  also returns when the path does not exist. A property filter on such a path is therefore
  never satisfied, whatever string is expected (even the formatted form of \<^verbatim>\<open>nil\<close>), and
  both matchers skip the resource. Removing a key whose value is null changes neither what
  the resolver returns for any path nor what \<^verbatim>\<open>checkProperties\<close> returns.
\<close>

theorem null_leaf_is_absent:
  "((descends (IMap properties) (strings_Split (CHR ''.'') path) INil
       \<or> (\<nexists>v. descends (IMap properties) (strings_Split (CHR ''.'') path) v)) \<longrightarrow>
      getNestedProperty properties path = INil)
   \<and> ((descends (IMap properties) (strings_Split (CHR ''.'') path) INil
       \<or> (\<nexists>v. descends (IMap properties) (strings_Split (CHR ''.'') path) v)) \<longrightarrow>
      (path, expected) \<in> set filters \<longrightarrow>
      checkProperties fmtv properties filters = (False, []))
   \<and> ((descends (IMap properties) (strings_Split (CHR ''.'') path) INil
       \<or> (\<nexists>v. descends (IMap properties) (strings_Split (CHR ''.'') path) v)) \<longrightarrow>
      (path, expected) \<in> set filters \<longrightarrow>
      map_of resourceMap ''Properties'' = Some (IMap properties) \<longrightarrow>
      Search_matchResource fmtv resourceType filters (logicalID, IMap resourceMap) = None
      \<and> List_matchResource fmtv resType resName filters (logicalID, IMap resourceMap) = None)
   \<and> (map_of properties key = Some INil \<longrightarrow>
      getNestedProperty (AList.delete key properties) path = getNestedProperty properties path
      \<and> checkProperties fmtv (AList.delete key properties) filters =
          checkProperties fmtv properties filters)"
proof -
  let ?absent = "descends (IMap properties) (strings_Split (CHR ''.'') path) INil
       \<or> (\<nexists>v. descends (IMap properties) (strings_Split (CHR ''.'') path) v)"
  have a: "?absent \<longrightarrow> getNestedProperty properties path = INil"
    using getNestedProperty_absent_or_null by blast
  have b: "?absent \<longrightarrow> (path, expected) \<in> set filters \<longrightarrow>
      checkProperties fmtv properties filters = (False, [])"
    using getNestedProperty_absent_or_null checkProperties_nil_fails by blast
  have c: "?absent \<longrightarrow> (path, expected) \<in> set filters \<longrightarrow>
      map_of resourceMap ''Properties'' = Some (IMap properties) \<longrightarrow>
      Search_matchResource fmtv resourceType filters (logicalID, IMap resourceMap) = None
      \<and> List_matchResource fmtv resType resName filters (logicalID, IMap resourceMap) = None"
  proof (intro impI)
    assume "?absent" and mem: "(path, expected) \<in> set filters"
      and props: "map_of resourceMap ''Properties'' = Some (IMap properties)"
    then have chk: "checkProperties fmtv properties filters = (False, [])"
      using b by blast
    from mem have ne: "filters \<noteq> []" by auto
    show "Search_matchResource fmtv resourceType filters (logicalID, IMap resourceMap) = None
      \<and> List_matchResource fmtv resType resName filters (logicalID, IMap resourceMap) = None"
      using props chk ne
      by (simp add: Search_matchResource_def List_matchResource_def
          split: option.splits iface.splits)
  qed
  have d: "map_of properties key = Some INil \<longrightarrow>
      getNestedProperty (AList.delete key properties) path = getNestedProperty properties path
      \<and> checkProperties fmtv (AList.delete key properties) filters =
          checkProperties fmtv properties filters"
    using getNestedProperty_delete_null [of properties key]
      checkProperties_loop_cong [of "AList.delete key properties" properties fmtv filters "[]"]
    by (simp add: checkProperties_def)
  show ?thesis by (rule conjI [OF a conjI [OF b conjI [OF c d]]])
qed

theorem null_leaf_is_absent_witness:
  "descends (IMap [(''BucketName'', INil), (''Tag'', IString ''x'')])
      (strings_Split (CHR ''.'') ''BucketName'') (INil :: int iface)
   \<and> (''BucketName'', ''<nil>'') \<in> set [(''BucketName'', ''<nil>'')]
   \<and> sprint_scalar INil = ''<nil>''
   \<and> getNestedProperty [(''BucketName'', INil), (''Tag'', IString ''x'' :: int iface)] ''BucketName''
       = INil
   \<and> checkProperties sprint_scalar [(''BucketName'', INil), (''Tag'', IString ''x'')]
        [(''BucketName'', ''<nil>'')] = (False, [])
   \<and> (\<nexists>v :: int iface. descends (IMap [(''Tag'', IString ''x'')])
        (strings_Split (CHR ''.'') ''BucketName'') v)
   \<and> checkProperties sprint_scalar [(''Tag'', IString ''x'')]
        [(''BucketName'', ''<nil>'')] = (False, [])"
proof -
  let ?P = "[(''BucketName'', INil), (''Tag'', IString ''x'')] :: int gomap"
  let ?Q = "[(''Tag'', IString ''x'')] :: int gomap"
  have sp: "strings_Split (CHR ''.'') ''BucketName'' = [''BucketName'']" by simp
  have h1: "descends (IMap ?P) (strings_Split (CHR ''.'') ''BucketName'') INil"
    unfolding sp
    by (rule descends.step [where v = INil], simp, rule descends.here)
  have h2: "(''BucketName'', ''<nil>'') \<in> set [(''BucketName'', ''<nil>'')]" by simp
  have h3: "sprint_scalar INil = ''<nil>''" by (simp add: sprint_scalar_def)
  have h4: "\<nexists>v :: int iface. descends (IMap ?Q) (strings_Split (CHR ''.'') ''BucketName'') v"
    unfolding sp by (auto elim!: descends_ConsE)
  note t = null_leaf_is_absent
  have r1: "getNestedProperty ?P ''BucketName'' = INil"
    using t [THEN conjunct1, of ?P "''BucketName''"] h1 by blast
  have r2: "checkProperties sprint_scalar ?P [(''BucketName'', ''<nil>'')] = (False, [])"
    using t [THEN conjunct2, THEN conjunct1, of ?P "''BucketName''" "''<nil>''"
             "[(''BucketName'', ''<nil>'')]" sprint_scalar] h1 h2 by blast
  have r3: "checkProperties sprint_scalar ?Q [(''BucketName'', ''<nil>'')] = (False, [])"
    using t [THEN conjunct2, THEN conjunct1, of ?Q "''BucketName''" "''<nil>''"
             "[(''BucketName'', ''<nil>'')]" sprint_scalar] h4 h2 by blast
  show ?thesis
    by (rule conjI [OF h1 conjI [OF h2 conjI [OF h3 conjI [OF r1 conjI [OF r2 conjI [OF h4 r3]]]]]])
qed

section \<open>Parsing\<close>

text \<open>
  C3. An empty template text fails with \<open>EmptyTemplate\<close>. A text that the JSON decoder
  accepts parses to the JSON document, whatever the YAML decoder would do. A text that
  only the YAML decoder accepts parses to the YAML document. A text that neither accepts
  fails with a parse error. A document that is returned is the whole result of one
  decoder: nothing partial is produced.
\<close>

theorem parseTemplate_json_then_yaml:
  "parseTemplate json yaml [] = Inl EmptyTemplate
   \<and> (body \<noteq> [] \<longrightarrow> json body = Inr doc \<longrightarrow>
        (\<forall>yaml'. parseTemplate json yaml' body = Inr doc))
   \<and> (body \<noteq> [] \<longrightarrow> json body = Inl e \<longrightarrow> yaml body = Inr doc \<longrightarrow>
        parseTemplate json yaml body = Inr doc)
   \<and> (body \<noteq> [] \<longrightarrow> json body = Inl e \<longrightarrow> yaml body = Inl e' \<longrightarrow>
        parseTemplate json yaml body = Inl (ParseError e'))
   \<and> (parseTemplate json yaml body = Inr doc \<longrightarrow>
        body \<noteq> [] \<and> (json body = Inr doc \<or> (isl (json body) \<and> yaml body = Inr doc)))
   \<and> (GetTemplate env stackName = Inr output \<longrightarrow> getValue output = [] \<longrightarrow>
        Search_searchStackTemplate env stackName resourceType propertyFilters = Inl EmptyTemplate)
   \<and> (GetTemplate env stackName = Inr output \<longrightarrow> getValue output \<noteq> [] \<longrightarrow>
        isl (json_Unmarshal env (getValue output)) \<longrightarrow>
        yaml_Unmarshal env (getValue output) = Inl e' \<longrightarrow>
        Search_searchStackTemplate env stackName resourceType propertyFilters
          = Inl (ParseError e'))"
proof -
  have a: "parseTemplate json yaml [] = Inl EmptyTemplate"
    by (simp add: parseTemplate_def)
  have b: "body \<noteq> [] \<longrightarrow> json body = Inr doc \<longrightarrow>
        (\<forall>yaml'. parseTemplate json yaml' body = Inr doc)"
    by (simp add: parseTemplate_def)
  have c: "body \<noteq> [] \<longrightarrow> json body = Inl e \<longrightarrow> yaml body = Inr doc \<longrightarrow>
        parseTemplate json yaml body = Inr doc"
    by (simp add: parseTemplate_def)
  have d: "body \<noteq> [] \<longrightarrow> json body = Inl e \<longrightarrow> yaml body = Inl e' \<longrightarrow>
        parseTemplate json yaml body = Inl (ParseError e')"
    by (simp add: parseTemplate_def)
  have e: "parseTemplate json yaml body = Inr doc \<longrightarrow>
        body \<noteq> [] \<and> (json body = Inr doc \<or> (isl (json body) \<and> yaml body = Inr doc))"
    by (auto simp: parseTemplate_def split: if_splits sum.splits)
  have f: "GetTemplate env stackName = Inr output \<longrightarrow> getValue output = [] \<longrightarrow>
        Search_searchStackTemplate env stackName resourceType propertyFilters = Inl EmptyTemplate"
    by (simp add: Search_searchStackTemplate_def parseTemplate_def)
  have g: "GetTemplate env stackName = Inr output \<longrightarrow> getValue output \<noteq> [] \<longrightarrow>
        isl (json_Unmarshal env (getValue output)) \<longrightarrow>
        yaml_Unmarshal env (getValue output) = Inl e' \<longrightarrow>
        Search_searchStackTemplate env stackName resourceType propertyFilters
          = Inl (ParseError e')"
    by (auto simp: Search_searchStackTemplate_def parseTemplate_def isl_def)
  show ?thesis
    by (rule conjI [OF a conjI [OF b conjI [OF c conjI [OF d conjI [OF e conjI [OF f g]]]]]])
qed

theorem parseTemplate_json_then_yaml_witness:
  "parseTemplate json_example yaml_example
      ''{\"Resources\":{\"Bucket\":{\"Type\":\"AWS::S3::Bucket\"}}}''
     = Inr [(''Resources'', IMap [(''Bucket'', IMap [(''Type'', IString ''AWS::S3::Bucket'')])])]
   \<and> parseTemplate json_example yaml_example ''Resources: {Topic: {Type: AWS::SNS::Topic}}''
     = Inr [(''Resources'', IMap [(''Topic'', IMap [(''Type'', IString ''AWS::SNS::Topic'')])])]
   \<and> parseTemplate json_example yaml_example ''{'' = Inl (ParseError ''yaml: unmarshal errors'')"
proof -
  note t = parseTemplate_json_then_yaml [of json_example yaml_example]
  let ?j = "''{\"Resources\":{\"Bucket\":{\"Type\":\"AWS::S3::Bucket\"}}}''"
  let ?y = "''Resources: {Topic: {Type: AWS::SNS::Topic}}''"
  have r1: "parseTemplate json_example yaml_example ?j
     = Inr [(''Resources'', IMap [(''Bucket'', IMap [(''Type'', IString ''AWS::S3::Bucket'')])])]"
    using t [THEN conjunct2, THEN conjunct1, of ?j]
    by (simp add: json_example_def)
  have r2: "parseTemplate json_example yaml_example ?y
     = Inr [(''Resources'', IMap [(''Topic'', IMap [(''Type'', IString ''AWS::SNS::Topic'')])])]"
    using t [THEN conjunct2, THEN conjunct2, THEN conjunct1, of ?y "''invalid character''"]
    by (simp add: json_example_def yaml_example_def)
  have r3: "parseTemplate json_example yaml_example ''{'' = Inl (ParseError ''yaml: unmarshal errors'')"
    using t [THEN conjunct2, THEN conjunct2, THEN conjunct2, THEN conjunct1,
             of "''{''" "''invalid character''" "''yaml: unmarshal errors''"]
    by (simp add: json_example_def yaml_example_def)
  show ?thesis by (rule conjI [OF r1 conjI [OF r2 r3]])
qed

section \<open>Failures of single stacks\<close>

lemma runSearch_loop_eq:
  "runSearch_loop env resourceType propertyFilters stacks (calls, matchingStacks) =
     (calls @ map CallGetTemplate (List.map_filter StackName stacks),
      matchingStacks @ List.map_filter (stackEntry env resourceType propertyFilters) stacks)"
  by (induction stacks arbitrary: calls matchingStacks)
     (auto simp: map_filter_simps stackEntry_def split: option.splits sum.splits)

lemma stackFails_skipped:
  "stackFails env stack \<Longrightarrow> stackEntry env resourceType propertyFilters stack = None"
  by (auto simp: stackFails_def stackEntry_def Search_searchStackTemplate_def parseTemplate_def
        isl_def split: option.splits sum.splits)

lemma map_filter_append:
  "List.map_filter f (xs @ ys) = List.map_filter f xs @ List.map_filter f ys"
  by (simp add: List.map_filter_def)

text \<open>
  C2. A stack whose template cannot be fetched, whose template body is empty, or whose
  body neither decoder accepts, contributes nothing. The loop of the search command returns
  one Stack Match for every other stack that has at least one Resource Match, in the order
  of the input, so the result with a failing stack in the input is the result without
  it. Once the arguments are parsed and a non-empty list of stacks is obtained, the command
  ends with that result, never with an error.
\<close>

theorem runSearch_isolates_failures:
  "(stackFails env stack \<longrightarrow> stackEntry env resourceType propertyFilters stack = None)
   \<and> snd (runSearch_loop env resourceType propertyFilters stacks (calls, []))
        = List.map_filter (stackEntry env resourceType propertyFilters) stacks
   \<and> (stackFails env stack \<longrightarrow>
        snd (runSearch_loop env resourceType propertyFilters (before @ stack # after) (calls, []))
        = snd (runSearch_loop env resourceType propertyFilters (before @ after) (calls, [])))
   \<and> (mustClient env = None \<longrightarrow>
        parsePropertyFilters (searchProperties flags) [] = Inr propertyFilters \<longrightarrow>
        listStacks env (searchFilterAll flags, searchFilterComplete flags,
                        searchFilterDeleted flags, searchFilterInProgress flags) [] [] []
          = Inr stacks \<longrightarrow>
        stacks \<noteq> [] \<longrightarrow>
        snd (runSearch env flags resourceType)
          = SearchDone (List.map_filter (stackEntry env resourceType propertyFilters) stacks))"
proof -
  have a: "stackFails env stack \<longrightarrow> stackEntry env resourceType propertyFilters stack = None"
    by (simp add: stackFails_skipped)
  have b: "snd (runSearch_loop env resourceType propertyFilters stacks (calls, []))
        = List.map_filter (stackEntry env resourceType propertyFilters) stacks"
    by (simp add: runSearch_loop_eq)
  have c: "stackFails env stack \<longrightarrow>
        snd (runSearch_loop env resourceType propertyFilters (before @ stack # after) (calls, []))
        = snd (runSearch_loop env resourceType propertyFilters (before @ after) (calls, []))"
    by (simp add: runSearch_loop_eq map_filter_append map_filter_simps stackFails_skipped)
  have d: "mustClient env = None \<longrightarrow>
        parsePropertyFilters (searchProperties flags) [] = Inr propertyFilters \<longrightarrow>
        listStacks env (searchFilterAll flags, searchFilterComplete flags,
                        searchFilterDeleted flags, searchFilterInProgress flags) [] [] []
          = Inr stacks \<longrightarrow>
        stacks \<noteq> [] \<longrightarrow>
        snd (runSearch env flags resourceType)
          = SearchDone (List.map_filter (stackEntry env resourceType propertyFilters) stacks)"
    by (simp add: runSearch_def runSearch_loop_eq)
  show ?thesis by (rule conjI [OF a conjI [OF b conjI [OF c d]]])
qed

theorem runSearch_isolates_failures_witness:
  "stackFails services_example \<lparr>StackName = Some ''stack2'', StackStatus = ''CREATE_COMPLETE''\<rparr>
   \<and> snd (runSearch_loop services_example ''AWS::S3::Bucket'' []
          [\<lparr>StackName = Some ''stack1'', StackStatus = ''CREATE_COMPLETE''\<rparr>,
           \<lparr>StackName = Some ''stack2'', StackStatus = ''CREATE_COMPLETE''\<rparr>,
           \<lparr>StackName = Some ''stack3'', StackStatus = ''UPDATE_COMPLETE''\<rparr>] ([], []))
     = [\<lparr>sm_stackName = ''stack1'',
          sm_resources = [\<lparr>rm_logicalID = ''Bucket'', rm_resourceType = ''AWS::S3::Bucket'',
                            rm_matchedProperties = []\<rparr>]\<rparr>,
        \<lparr>sm_stackName = ''stack3'',
          sm_resources = [\<lparr>rm_logicalID = ''Bucket'', rm_resourceType = ''AWS::S3::Bucket'',
                            rm_matchedProperties = []\<rparr>]\<rparr>]"
proof -
  let ?s1 = "\<lparr>StackName = Some ''stack1'', StackStatus = ''CREATE_COMPLETE''\<rparr>"
  let ?s2 = "\<lparr>StackName = Some ''stack2'', StackStatus = ''CREATE_COMPLETE''\<rparr>"
  let ?s3 = "\<lparr>StackName = Some ''stack3'', StackStatus = ''UPDATE_COMPLETE''\<rparr>"
  let ?bucket = "\<lparr>rm_logicalID = ''Bucket'', rm_resourceType = ''AWS::S3::Bucket'',
                   rm_matchedProperties = [] :: int gomap\<rparr>"
  have fails: "stackFails services_example ?s2"
    by (simp add: stackFails_def services_example_def)
  have one: "Search_searchStackTemplate services_example name ''AWS::S3::Bucket'' [] = Inr [?bucket]"
    if "name \<noteq> ''stack2''" for name
    using that
    by (simp add: Search_searchStackTemplate_def services_example_def parseTemplate_def
        getValue_def json_example_def Search_searchResources_def Search_matchResource_def)
  have others: "snd (runSearch_loop services_example ''AWS::S3::Bucket'' [] ([?s1] @ [?s3]) ([], []))
     = [\<lparr>sm_stackName = ''stack1'', sm_resources = [?bucket]\<rparr>,
        \<lparr>sm_stackName = ''stack3'', sm_resources = [?bucket]\<rparr>]"
    by (simp add: one)
  have "snd (runSearch_loop services_example ''AWS::S3::Bucket'' [] ([?s1] @ ?s2 # [?s3]) ([], []))
     = snd (runSearch_loop services_example ''AWS::S3::Bucket'' [] ([?s1] @ [?s3]) ([], []))"
    using runSearch_isolates_failures [THEN conjunct2, THEN conjunct2, THEN conjunct1,
        of services_example ?s2 "''AWS::S3::Bucket''" "[]" "[?s1]" "[?s3]" "[]"] fails
    by blast
  with others have run: "snd (runSearch_loop services_example ''AWS::S3::Bucket'' []
      [?s1, ?s2, ?s3] ([], []))
     = [\<lparr>sm_stackName = ''stack1'', sm_resources = [?bucket]\<rparr>,
        \<lparr>sm_stackName = ''stack3'', sm_resources = [?bucket]\<rparr>]"
    by simp
  show ?thesis by (rule conjI [OF fails run])
qed

section \<open>Status categories and the stack filter\<close>

lemma isActiveStatus_loop_set: "isActiveStatus_loop states status \<longleftrightarrow> status \<in> set states"
  by (induction states) auto

text \<open>
  C7. For every status string: \<^verbatim>\<open>isCompleteStatus\<close> holds exactly when the string ends
  with \<open>_COMPLETE\<close>, \<^verbatim>\<open>isDeletedStatus\<close> exactly when it starts with \<open>DELETE_\<close>,
  \<^verbatim>\<open>isInProgressStatus\<close> exactly when it ends with \<open>_IN_PROGRESS\<close>, and
  \<^verbatim>\<open>isActiveStatus\<close> exactly when it is one of the six listed stable states. The
  categories overlap: \<open>DELETE_COMPLETE\<close> is both complete and deleted.
\<close>

theorem status_predicates:
  "(isCompleteStatus s \<longleftrightarrow> (\<exists>p. s = p @ ''_COMPLETE''))
   \<and> (isDeletedStatus s \<longleftrightarrow> (\<exists>r. s = ''DELETE_'' @ r))
   \<and> (isInProgressStatus s \<longleftrightarrow> (\<exists>p. s = p @ ''_IN_PROGRESS''))
   \<and> (isActiveStatus s \<longleftrightarrow>
        s \<in> {''CREATE_COMPLETE'', ''UPDATE_COMPLETE'', ''ROLLBACK_COMPLETE'',
             ''UPDATE_ROLLBACK_COMPLETE'', ''IMPORT_COMPLETE'', ''IMPORT_ROLLBACK_COMPLETE''})
   \<and> isCompleteStatus ''CREATE_COMPLETE''
   \<and> isCompleteStatus ''DELETE_COMPLETE''
   \<and> isDeletedStatus ''DELETE_COMPLETE''"
proof -
  have a: "isCompleteStatus s \<longleftrightarrow> (\<exists>p. s = p @ ''_COMPLETE'')"
    unfolding isCompleteStatus_def strings_HasSuffix_def suffix_def ..
  have b: "isDeletedStatus s \<longleftrightarrow> (\<exists>r. s = ''DELETE_'' @ r)"
    unfolding isDeletedStatus_def strings_HasPrefix_def prefix_def ..
  have c: "isInProgressStatus s \<longleftrightarrow> (\<exists>p. s = p @ ''_IN_PROGRESS'')"
    unfolding isInProgressStatus_def strings_HasSuffix_def suffix_def ..
  have d: "isActiveStatus s \<longleftrightarrow>
        s \<in> {''CREATE_COMPLETE'', ''UPDATE_COMPLETE'', ''ROLLBACK_COMPLETE'',
             ''UPDATE_ROLLBACK_COMPLETE'', ''IMPORT_COMPLETE'', ''IMPORT_ROLLBACK_COMPLETE''}"
    by (simp only: isActiveStatus_def isActiveStatus_loop_set completeStates_def list.set)
  have e: "isCompleteStatus ''CREATE_COMPLETE''"
    by (simp add: isCompleteStatus_def strings_HasSuffix_def suffix_to_prefix)
  have f: "isCompleteStatus ''DELETE_COMPLETE''"
    by (simp add: isCompleteStatus_def strings_HasSuffix_def suffix_to_prefix)
  have g: "isDeletedStatus ''DELETE_COMPLETE''"
    by (simp add: isDeletedStatus_def strings_HasPrefix_def)
  show ?thesis
    by (rule conjI [OF a conjI [OF b conjI [OF c conjI [OF d conjI [OF e conjI [OF f g]]]]]])
qed

lemma filterStacks_status_eq:
  "filterStacks_status active complete deleted inProgress status =
     (if \<not> active \<and> \<not> complete \<and> \<not> deleted \<and> \<not> inProgress
      then \<not> prefix ''DELETE_COMPLETE'' status
      else (active \<and> isActiveStatus status)
         \<or> (complete \<and> isCompleteStatus status)
         \<or> (deleted \<and> isDeletedStatus status)
         \<or> (inProgress \<and> isInProgressStatus status))"
  unfolding filterStacks_status_def Let_def strings_HasPrefix_def by auto

lemma DELETE_COMPLETE_prefix_iff:
  assumes "status \<in> set StackStatus_Values"
  shows "prefix ''DELETE_COMPLETE'' status \<longleftrightarrow> status = ''DELETE_COMPLETE''"
  using assms by (auto simp: StackStatus_Values_def)

lemma admitted_status:
  assumes "StackStatus stack \<in> set StackStatus_Values"
  shows "admitted toLower active complete deleted inProgress nameFilter stack =
     ((nameFilter = [] \<or>
       (case StackName stack of
          None \<Rightarrow> False
        | Some name \<Rightarrow> strings_Contains (toLower name) (toLower nameFilter)))
      \<and> filterStacks_status active complete deleted inProgress (StackStatus stack))"
  by (simp only: admitted_def filterStacks_status_eq DELETE_COMPLETE_prefix_iff [OF assms])

lemma filterStacks_loop_step:
  assumes "nameFilter = [] \<or> StackName stack \<noteq> None"
      and known: "StackStatus stack \<in> set StackStatus_Values"
  shows "filterStacks_loop toLower active complete deleted inProgress nameFilter (stack # stacks)
           filtered =
         filterStacks_loop toLower active complete deleted inProgress nameFilter stacks
           (if admitted toLower active complete deleted inProgress nameFilter stack
            then filtered @ [stack] else filtered)"
proof (cases "nameFilter = []")
  case True
  then show ?thesis by (simp add: admitted_status [OF known])
next
  case False
  with assms obtain name where "StackName stack = Some name" by auto
  with False show ?thesis by (simp add: admitted_status [OF known])
qed

lemma filterStacks_loop_eq:
  assumes "nameFilter = [] \<or> (\<forall>s \<in> set stacks. StackName s \<noteq> None)"
      and "\<forall>s \<in> set stacks. StackStatus s \<in> set StackStatus_Values"
  shows "filterStacks_loop toLower active complete deleted inProgress nameFilter stacks filtered =
     Inr (filtered @
          filter (admitted toLower active complete deleted inProgress nameFilter) stacks)"
  using assms
proof (induction stacks arbitrary: filtered)
  case Nil
  then show ?case by simp
next
  case (Cons stack stacks)
  from Cons.prems have here: "nameFilter = [] \<or> StackName stack \<noteq> None"
    and rest: "nameFilter = [] \<or> (\<forall>s \<in> set stacks. StackName s \<noteq> None)"
    and known: "StackStatus stack \<in> set StackStatus_Values"
    and knowns: "\<forall>s \<in> set stacks. StackStatus s \<in> set StackStatus_Values"
    by auto
  show ?case
    by (simp only: filterStacks_loop_step [OF here known] Cons.IH [OF rest knowns] filter.simps)
       simp
qed

text \<open>
  C6. For every list of stacks that the listing call can return (each status one of the
  values of the status type, each stack with the name that the name test reads) and every
  combination of status flags, \<^verbatim>\<open>filterStacks\<close> keeps, in order, exactly the admitted
  stacks. Without a status flag a stack is admitted exactly when its status is not
  \<open>DELETE_COMPLETE\<close>; with one or more flags, exactly when its status is in at least one
  requested category; and a non-empty name filter must moreover occur in the name, both
  taken in lower case.
\<close>

theorem filterStacks_admits:
  assumes "nameFilter = [] \<or> (\<forall>s \<in> set stacks. StackName s \<noteq> None)"
      and "\<forall>s \<in> set stacks. StackStatus s \<in> set StackStatus_Values"
  shows "filterStacks toLower stacks active complete deleted inProgress nameFilter =
     Inr (filter (admitted toLower active complete deleted inProgress nameFilter) stacks)"
  using filterStacks_loop_eq [OF assms] by (simp add: filterStacks_def)

theorem filterStacks_admits_witness:
  "filterStacks ascii_ToLower
      [\<lparr>StackName = Some ''Prod-API'', StackStatus = ''UPDATE_COMPLETE''\<rparr>,
       \<lparr>StackName = Some ''dev-api'', StackStatus = ''CREATE_IN_PROGRESS''\<rparr>,
       \<lparr>StackName = Some ''prod-db'', StackStatus = ''DELETE_FAILED''\<rparr>,
       \<lparr>StackName = Some ''prod-web'', StackStatus = ''DELETE_IN_PROGRESS''\<rparr>]
      False True False True ''PROD''
     = Inr [\<lparr>StackName = Some ''Prod-API'', StackStatus = ''UPDATE_COMPLETE''\<rparr>,
            \<lparr>StackName = Some ''prod-web'', StackStatus = ''DELETE_IN_PROGRESS''\<rparr>]
   \<and> filterStacks ascii_ToLower
      [\<lparr>StackName = Some ''old'', StackStatus = ''DELETE_COMPLETE''\<rparr>,
       \<lparr>StackName = Some ''stuck'', StackStatus = ''DELETE_FAILED''\<rparr>,
       \<lparr>StackName = Some ''live'', StackStatus = ''UPDATE_COMPLETE_CLEANUP_IN_PROGRESS''\<rparr>]
      False False False False []
     = Inr [\<lparr>StackName = Some ''stuck'', StackStatus = ''DELETE_FAILED''\<rparr>,
            \<lparr>StackName = Some ''live'',
               StackStatus = ''UPDATE_COMPLETE_CLEANUP_IN_PROGRESS''\<rparr>]"
proof -
  let ?stacks = "[\<lparr>StackName = Some ''Prod-API'', StackStatus = ''UPDATE_COMPLETE''\<rparr>,
       \<lparr>StackName = Some ''dev-api'', StackStatus = ''CREATE_IN_PROGRESS''\<rparr>,
       \<lparr>StackName = Some ''prod-db'', StackStatus = ''DELETE_FAILED''\<rparr>,
       \<lparr>StackName = Some ''prod-web'', StackStatus = ''DELETE_IN_PROGRESS''\<rparr>]"
  let ?plain = "[\<lparr>StackName = Some ''old'', StackStatus = ''DELETE_COMPLETE''\<rparr>,
       \<lparr>StackName = Some ''stuck'', StackStatus = ''DELETE_FAILED''\<rparr>,
       \<lparr>StackName = Some ''live'', StackStatus = ''UPDATE_COMPLETE_CLEANUP_IN_PROGRESS''\<rparr>]"
  have named: "''PROD'' = [] \<or> (\<forall>s \<in> set ?stacks. StackName s \<noteq> None)"
    by simp
  have known: "\<forall>s \<in> set ?stacks. StackStatus s \<in> set StackStatus_Values"
    by (simp add: StackStatus_Values_def)
  have low: "ascii_ToLower ''PROD'' = ''prod''" "ascii_ToLower ''Prod-API'' = ''prod-api''"
    "ascii_ToLower ''dev-api'' = ''dev-api''" "ascii_ToLower ''prod-db'' = ''prod-db''"
    "ascii_ToLower ''prod-web'' = ''prod-web''"
    by (simp_all add: ascii_ToLower_def)
  have adm: "filter (admitted ascii_ToLower False True False True ''PROD'') ?stacks =
      [\<lparr>StackName = Some ''Prod-API'', StackStatus = ''UPDATE_COMPLETE''\<rparr>,
       \<lparr>StackName = Some ''prod-web'', StackStatus = ''DELETE_IN_PROGRESS''\<rparr>]"
    by (simp add: admitted_def low strings_Contains_def sublist_code isCompleteStatus_def
        isInProgressStatus_def strings_HasSuffix_def suffix_to_prefix)
  have flagged: "filterStacks ascii_ToLower ?stacks False True False True ''PROD''
     = Inr [\<lparr>StackName = Some ''Prod-API'', StackStatus = ''UPDATE_COMPLETE''\<rparr>,
            \<lparr>StackName = Some ''prod-web'', StackStatus = ''DELETE_IN_PROGRESS''\<rparr>]"
    using filterStacks_admits [OF named known, of ascii_ToLower False True False True]
    by (simp only: adm)
  have unnamed: "[] = ([] :: string) \<or> (\<forall>s \<in> set ?plain. StackName s \<noteq> None)"
    by simp
  have known': "\<forall>s \<in> set ?plain. StackStatus s \<in> set StackStatus_Values"
    by (simp add: StackStatus_Values_def)
  have adm': "filter (admitted ascii_ToLower False False False False []) ?plain =
      [\<lparr>StackName = Some ''stuck'', StackStatus = ''DELETE_FAILED''\<rparr>,
       \<lparr>StackName = Some ''live'', StackStatus = ''UPDATE_COMPLETE_CLEANUP_IN_PROGRESS''\<rparr>]"
    by (simp add: admitted_def)
  have default: "filterStacks ascii_ToLower ?plain False False False False []
     = Inr [\<lparr>StackName = Some ''stuck'', StackStatus = ''DELETE_FAILED''\<rparr>,
            \<lparr>StackName = Some ''live'',
               StackStatus = ''UPDATE_COMPLETE_CLEANUP_IN_PROGRESS''\<rparr>]"
    using filterStacks_admits [OF unnamed known', of ascii_ToLower False False False False]
    by (simp only: adm')
  show ?thesis by (rule conjI [OF flagged default])
qed

section \<open>Property tokens without a separator\<close>

lemma strings_SplitN2_length: "length (strings_SplitN2 sep s) = 2 \<longleftrightarrow> sep \<in> set s"
  by (simp add: strings_SplitN2_def)

lemma parsePropertyFilters_invalid:
  "List.find (\<lambda>p. CHR ''='' \<notin> set p) props = Some bad \<Longrightarrow>
   parsePropertyFilters props propertyFilters = Inl (InvalidPropertyFormat bad)"
  by (induction props arbitrary: propertyFilters)
     (auto simp: Let_def strings_SplitN2_length split: if_splits)

lemma parsePropertyFilters_valid:
  "\<forall>p \<in> set props. CHR ''='' \<in> set p \<Longrightarrow>
   \<exists>parsed. parsePropertyFilters props propertyFilters = Inr parsed"
  by (induction props arbitrary: propertyFilters)
     (auto simp: Let_def strings_SplitN2_length)

lemma runSearch_rejects_before_any_call:
  assumes "mustClient env = None"
      and "List.find (\<lambda>p. CHR ''='' \<notin> set p) (searchProperties flags) = Some bad"
  shows "runSearch env flags resourceType = ([], Fatal (InvalidPropertyFormat bad))"
  using assms by (simp add: runSearch_def parsePropertyFilters_invalid)

lemma runList_lists_before_rejecting:
  assumes "mustClient env = None"
      and "listStacks env (flag_filterAll flags, flag_filterComplete flags,
             flag_filterDeleted flags, flag_filterInProgress flags)
             (flag_nameFilter flags) (flag_descContains flags) (flag_descNotContains flags)
           = Inr stacks"
      and "List.find (\<lambda>p. CHR ''='' \<notin> set p) (flag_properties flags) = Some bad"
  shows "runList env flags [] = ([CallListStacks], Fatal (InvalidPropertyFormat bad))"
proof -
  from assms(3) have "flag_properties flags \<noteq> []" by auto
  with assms show ?thesis
    by (simp add: runList_def runList_listing_def runResourceSearch_def
        parsePropertyFilters_invalid)
qed

text \<open>
  C8. A \<^verbatim>\<open>--property\<close> token without \<open>=\<close> is to be rejected when the arguments are
  parsed, before any network call. The search command does so (no call is made, the error
  names the token). The list command lists the stacks first: with the token
  \<open>ProductName\<close> its calls are \<open>[CallListStacks]\<close> before the token is rejected, and
  when the listing fails the command ends with the listing error and never names the
  token.
\<close>

theorem list_command_lists_before_rejecting_token:
  "runList services_example
      \<lparr>flag_filterAll = False, flag_filterComplete = False, flag_filterDeleted = False,
       flag_filterInProgress = False, flag_nameFilter = [], flag_descContains = [],
       flag_descNotContains = [], flag_namesOnly = False,
       flag_resourceType = ''AWS::S3::Bucket'', flag_resourceName = [],
       flag_properties = [''ProductName'']\<rparr> []
     = ([CallListStacks], Fatal (InvalidPropertyFormat ''ProductName''))
   \<and> runList (services_example\<lparr>listStacks := \<lambda>statusFlags nameContains descContains descExcludes.
                                                Inl ''RequestError''\<rparr>)
      \<lparr>flag_filterAll = False, flag_filterComplete = False, flag_filterDeleted = False,
       flag_filterInProgress = False, flag_nameFilter = [], flag_descContains = [],
       flag_descNotContains = [], flag_namesOnly = False,
       flag_resourceType = ''AWS::S3::Bucket'', flag_resourceName = [],
       flag_properties = [''ProductName'']\<rparr> []
     = ([CallListStacks], Fatal (FailedToListStacks ''RequestError''))
   \<and> runSearch services_example
      \<lparr>searchProperties = [''ProductName''], searchFilterAll = False,
       searchFilterComplete = False, searchFilterDeleted = False,
       searchFilterInProgress = False\<rparr> ''AWS::S3::Bucket''
     = ([], Fatal (InvalidPropertyFormat ''ProductName''))"
proof -
  let ?flags = "\<lparr>flag_filterAll = False, flag_filterComplete = False, flag_filterDeleted = False,
       flag_filterInProgress = False, flag_nameFilter = [], flag_descContains = [],
       flag_descNotContains = [], flag_namesOnly = False,
       flag_resourceType = ''AWS::S3::Bucket'', flag_resourceName = [],
       flag_properties = [''ProductName'']\<rparr>"
  have bad: "parsePropertyFilters [''ProductName''] [] = Inl (InvalidPropertyFormat ''ProductName'')"
    by (simp add: strings_SplitN2_def Let_def)
  have a: "runList services_example ?flags []
     = ([CallListStacks], Fatal (InvalidPropertyFormat ''ProductName''))"
    by (simp add: runList_def runList_listing_def runResourceSearch_def services_example_def bad
        del: parsePropertyFilters.simps)
  have b: "runList (services_example\<lparr>listStacks := \<lambda>statusFlags nameContains descContains descExcludes.
                                                Inl ''RequestError''\<rparr>) ?flags []
     = ([CallListStacks], Fatal (FailedToListStacks ''RequestError''))"
    by (simp add: runList_def runList_listing_def services_example_def)
  have c: "runSearch services_example
      \<lparr>searchProperties = [''ProductName''], searchFilterAll = False,
       searchFilterComplete = False, searchFilterDeleted = False,
       searchFilterInProgress = False\<rparr> ''AWS::S3::Bucket''
     = ([], Fatal (InvalidPropertyFormat ''ProductName''))"
    by (simp add: runSearch_def services_example_def bad del: parsePropertyFilters.simps)
  show ?thesis by (rule conjI [OF a conjI [OF b c]])
qed

end
